theory Spec2Isabelle
  imports Main "HOL-Library.Monad_Syntax"
begin

section \<open>Constants and tables (constants.js)\<close>

text \<open>
  The engine of \<^verbatim>\<open>src/simulation/BattleManager.js\<close> is embedded function by function.
  A mutation of \<^verbatim>\<open>this\<close> is a new value of the record \<open>manager\<close>; a call that would
  throw a \<^verbatim>\<open>TypeError\<close> returns \<open>None\<close>.
\<close>

datatype tank_id = P1 | P2

text \<open>String form of a tank id, as it is spliced into template literals.\<close>

definition tid_str :: "tank_id \<Rightarrow> string" where
  "tid_str tid = (case tid of P1 \<Rightarrow> ''P1'' | P2 \<Rightarrow> ''P2'')"

record start_pos =
  start_x :: int
  start_y :: int
  start_facing :: int

text \<open>
  The numeric constants imported from \<^verbatim>\<open>constants.js\<close>. That file is not part of the
  sources, so the constants are a parameter of every function that reads them.
\<close>

record config =
  GRID_WIDTH :: int
  GRID_HEIGHT :: int
  INITIAL_HP :: int
  MAX_OPS_PER_TURN :: int
  BULLET_MAX_RANGE :: int
  BULLET_SPEED :: nat
  MAX_TURNS :: int
  START_P1 :: start_pos
  START_P2 :: start_pos

text \<open>
  The values the earlier revision of the engine had inlined (16 by 10 cells, 3 HP, 50 ops,
  range 40, speed 2, the two starting positions). The turn limit has no inlined value
  there and stays a parameter.
\<close>

definition inlined_config :: "int \<Rightarrow> config" where
  "inlined_config max_turns =
     \<lparr>GRID_WIDTH = 16, GRID_HEIGHT = 10, INITIAL_HP = 3, MAX_OPS_PER_TURN = 50,
      BULLET_MAX_RANGE = 40, BULLET_SPEED = 2, MAX_TURNS = max_turns,
      START_P1 = \<lparr>start_x = 0, start_y = 4, start_facing = 0\<rparr>,
      START_P2 = \<lparr>start_x = 15, start_y = 5, start_facing = 2\<rparr>\<rparr>"

text \<open>
  The table \<^verbatim>\<open>DIRS\<close> (0 east, 1 south, 2 west, 3 north). Any other index reads
  \<^verbatim>\<open>undefined\<close>, and the property access that follows throws.
\<close>

definition DIRS :: "int \<Rightarrow> (int \<times> int) option" where
  "DIRS i = (if i = 0 then Some (1, 0) else if i = 1 then Some (0, 1)
             else if i = 2 then Some (-1, 0) else if i = 3 then Some (0, -1) else None)"

text \<open>The remainder operator of JavaScript truncates towards zero.\<close>

definition js_rem :: "int \<Rightarrow> int \<Rightarrow> int" where
  "js_rem a b = sgn a * (\<bar>a\<bar> mod \<bar>b\<bar>)"

section \<open>Strings of the log\<close>

definition digit_char :: "nat \<Rightarrow> char" where
  "digit_char d = char_of (48 + d)"

fun digits :: "nat \<Rightarrow> string" where
  "digits n = (if n < 10 then [digit_char n] else digits (n div 10) @ [digit_char (n mod 10)])"

declare digits.simps [simp del]

text \<open>\<^verbatim>\<open>String(n)\<close> for an integer.\<close>

definition String_of :: "int \<Rightarrow> string" where
  "String_of i = (if i < 0 then CHR ''-'' # digits (nat (- i)) else digits (nat i))"

definition padStart :: "string \<Rightarrow> nat \<Rightarrow> char \<Rightarrow> string" where
  "padStart str n c = replicate (n - length str) c @ str"

definition toLowerCase :: "string \<Rightarrow> string" where
  "toLowerCase str =
     map (\<lambda>c. if (65::nat) \<le> of_char c \<and> of_char c \<le> (90::nat)
              then char_of (of_char c + (32::nat)) else c) str"

fun join :: "string \<Rightarrow> string list \<Rightarrow> string" where
  "join sep [] = []"
| "join sep [a] = a"
| "join sep (a # b # rest) = a @ sep @ join sep (b # rest)"

section \<open>Grid\<close>

record grid =
  width :: int
  height :: int
  walls :: "(int \<times> int) set"

definition new_Grid :: "int \<Rightarrow> int \<Rightarrow> grid" where
  "new_Grid w h = \<lparr>width = w, height = h, walls = {}\<rparr>"

text \<open>
  Modelled from the spec: \<^verbatim>\<open>Grid.isValid\<close> (Grid.js is not part of the sources) is true
  iff \<open>0 \<le> x < width\<close>, \<open>0 \<le> y < height\<close> and the cell is not a wall cell.
\<close>

definition isValid :: "grid \<Rightarrow> int \<Rightarrow> int \<Rightarrow> bool" where
  "isValid g cx cy \<longleftrightarrow> 0 \<le> cx \<and> cx < width g \<and> 0 \<le> cy \<and> cy < height g \<and> (cx, cy) \<notin> walls g"

text \<open>
  Modelled from the spec: \<^verbatim>\<open>Grid.addWall\<close> (Grid.js is not part of the sources) puts the
  coordinate pair into the wall set.
\<close>

definition addWall :: "int \<Rightarrow> int \<Rightarrow> grid \<Rightarrow> grid" where
  "addWall cx cy g = g\<lparr>walls := insert (cx, cy) (walls g)\<rparr>"

section \<open>Data of the engine\<close>

text \<open>
  The result object of \<^verbatim>\<open>CPU.step()\<close>, which is also the pending action of a tank. A
  field that the object does not have is \<open>None\<close>.
\<close>

record action =
  atype :: string
  opcode :: "string option"
  dir :: "string option"
  destDist :: "string option"
  destType :: "string option"
  destX :: "string option"
  destY :: "string option"
  reason :: "string option"

definition plain_action :: "string \<Rightarrow> action" where
  "plain_action ty = \<lparr>atype = ty, opcode = None, dir = None, destDist = None, destType = None,
                      destX = None, destY = None, reason = None\<rparr>"

record instr =
  instr_opcode :: string
  instr_args :: "string list"

record 'c tank =
  tank_x :: int
  tank_y :: int
  facing :: int
  hp :: int
  cpu :: "'c option"
  lastAction :: "string option"
  lastFeedback :: "string option"
  debugPC :: "int option"
  debugIR :: "string option"
  debugRegisters :: "(string \<times> int) list"
  tank_turnOps :: int
  totalOps :: int

record bullet =
  bullet_id :: int
  bullet_x :: int
  bullet_y :: int
  dx :: int
  dy :: int
  owner :: tank_id
  dist :: int

record event =
  ev_id :: int
  ev_type :: string
  ev_x :: int
  ev_y :: int
  ev_owner :: "tank_id option"
  ev_hitTank :: "tank_id option"
  ev_tankId :: "tank_id option"
  ev_enemyX :: "int option"
  ev_enemyY :: "int option"

record intent =
  targetX :: int
  targetY :: int

record 'c manager =
  grid :: grid
  tanks :: "tank_id \<Rightarrow> 'c tank"
  bullets :: "bullet list"
  log :: "string list"
  events :: "event list"
  isGameOver :: bool
  winner :: "string option"
  pendingActions :: "tank_id \<Rightarrow> action option"
  turnOps :: "tank_id \<Rightarrow> int"
  turnCount :: int
  MAX_OPS :: int
  eventIdCounter :: int

definition enemy_of :: "tank_id \<Rightarrow> tank_id" where
  "enemy_of tankId = (if tankId = P1 then P2 else P1)"

definition upd_tank :: "tank_id \<Rightarrow> ('c tank \<Rightarrow> 'c tank) \<Rightarrow> 'c manager \<Rightarrow> 'c manager" where
  "upd_tank tid f s = s\<lparr>tanks := (tanks s)(tid := f (tanks s tid))\<rparr>"

text \<open>\<^verbatim>\<open>this._logTick(tankId, msg)\<close>\<close>

definition logTick :: "tank_id \<Rightarrow> string \<Rightarrow> 'c manager \<Rightarrow> 'c manager" where
  "logTick tankId msg s =
     (let cpuName = (if tankId = P1 then ''CPU_1'' else ''CPU_2'')
      in s\<lparr>log := log s @
           [''['' @ cpuName @ '' T'' @ padStart (String_of (turnCount s)) 3 (CHR ''0'') @ ''] '' @ msg]\<rparr>)"

text \<open>\<^verbatim>\<open>this.addEvent(type, data)\<close>: the event gets the next id of the shared counter.\<close>

definition addEvent :: "string \<Rightarrow> event \<Rightarrow> 'c manager \<Rightarrow> 'c manager" where
  "addEvent ty data s =
     s\<lparr>events := events s @ [data\<lparr>ev_id := eventIdCounter s, ev_type := ty\<rparr>],
       eventIdCounter := eventIdCounter s + 1\<rparr>"

definition explosion_data :: "int \<Rightarrow> int \<Rightarrow> tank_id \<Rightarrow> tank_id option \<Rightarrow> event" where
  "explosion_data ex ey own hit =
     \<lparr>ev_id = 0, ev_type = [], ev_x = ex, ev_y = ey, ev_owner = Some own, ev_hitTank = hit,
      ev_tankId = None, ev_enemyX = None, ev_enemyY = None\<rparr>"

definition ping_data :: "tank_id \<Rightarrow> int \<Rightarrow> int \<Rightarrow> int \<Rightarrow> int \<Rightarrow> event" where
  "ping_data tid px py enx eny =
     \<lparr>ev_id = 0, ev_type = [], ev_x = px, ev_y = py, ev_owner = None, ev_hitTank = None,
      ev_tankId = Some tid, ev_enemyX = Some enx, ev_enemyY = Some eny\<rparr>"

section \<open>applyMovements\<close>

type_synonym intents = "tank_id \<Rightarrow> intent option"

definition setFeedback :: "tank_id \<Rightarrow> string \<Rightarrow> 'c manager \<Rightarrow> 'c manager" where
  "setFeedback tid fb s = upd_tank tid (\<lambda>t. t\<lparr>lastFeedback := Some fb\<rparr>) s"

definition targets_cell :: "intent \<Rightarrow> 'c tank \<Rightarrow> bool" where
  "targets_cell m t \<longleftrightarrow> targetX m = tank_x t \<and> targetY m = tank_y t"

definition same_target :: "intent \<Rightarrow> intent \<Rightarrow> bool" where
  "same_target i1 i2 \<longleftrightarrow> targetX i1 = targetX i2 \<and> targetY i1 = targetY i2"

text \<open>1. Wall collision, decided on the intent as it was handed in.\<close>

definition wallCheck :: "tank_id \<Rightarrow> intent option \<Rightarrow> 'c manager \<times> intents \<Rightarrow> 'c manager \<times> intents" where
  "wallCheck tid move si =
     (case move of
        None \<Rightarrow> si
      | Some m \<Rightarrow>
          if \<not> isValid (grid (fst si)) (targetX m) (targetY m)
          then (setFeedback tid ''WALL'' (fst si), (snd si)(tid := None))
          else si)"

text \<open>2. Head-on collision: both tanks try to swap positions.\<close>

definition headOnCheck :: "'c manager \<times> intents \<Rightarrow> 'c manager \<times> intents" where
  "headOnCheck si =
     (case (snd si P1, snd si P2) of
        (Some i1, Some i2) \<Rightarrow>
          if targets_cell i1 (tanks (fst si) P2) \<and> targets_cell i2 (tanks (fst si) P1)
          then (setFeedback P2 ''COLLISION'' (setFeedback P1 ''COLLISION'' (fst si)),
                (snd si)(P1 := None, P2 := None))
          else si
      | _ \<Rightarrow> si)"

text \<open>3. Same-target collision.\<close>

definition sameTargetCheck :: "'c manager \<times> intents \<Rightarrow> 'c manager \<times> intents" where
  "sameTargetCheck si =
     (case (snd si P1, snd si P2) of
        (Some i1, Some i2) \<Rightarrow>
          if same_target i1 i2
          then (setFeedback P2 ''COLLISION'' (setFeedback P1 ''COLLISION'' (fst si)),
                (snd si)(P1 := None, P2 := None))
          else si
      | _ \<Rightarrow> si)"

text \<open>4. Blocked by the other tank's current position.\<close>

definition blockedCheck :: "tank_id \<Rightarrow> 'c manager \<times> intents \<Rightarrow> 'c manager \<times> intents" where
  "blockedCheck tid si =
     (case snd si tid of
        None \<Rightarrow> si
      | Some m \<Rightarrow>
          if targets_cell m (tanks (fst si) (enemy_of tid))
          then (setFeedback tid ''BLOCKED'' (fst si), (snd si)(tid := None))
          else si)"

text \<open>
  The block that applies a surviving intent and logs the result. Reading
  \<^verbatim>\<open>lastFeedback.toLowerCase()\<close> of a \<^verbatim>\<open>null\<close> feedback would throw.
\<close>

definition moveResult :: "tank_id \<Rightarrow> intent option \<Rightarrow> intents \<Rightarrow> 'c manager \<Rightarrow> 'c manager option" where
  "moveResult tid move ints s =
     (case move of
        None \<Rightarrow> Some s
      | Some _ \<Rightarrow>
          (case ints tid of
             Some m \<Rightarrow>
               (let s1 = upd_tank tid (\<lambda>t. t\<lparr>tank_x := targetX m, tank_y := targetY m\<rparr>) s
                in Some (logTick tid
                     (tid_str tid @ '' moves to ('' @ String_of (tank_x (tanks s1 tid)) @ '','' @
                      String_of (tank_y (tanks s1 tid)) @ '')'') s1))
           | None \<Rightarrow>
               (case lastFeedback (tanks s tid) of
                  None \<Rightarrow> None
                | Some fb \<Rightarrow>
                    Some (logTick tid (tid_str tid @ '' moves ('' @ toLowerCase fb @ '')'') s))))"

definition clampTank :: "tank_id \<Rightarrow> 'c manager \<Rightarrow> 'c manager" where
  "clampTank tid s =
     upd_tank tid (\<lambda>t. t\<lparr>tank_x := max 0 (min (width (grid s) - 1) (tank_x t))\<rparr>\<lparr>
                          tank_y := max 0 (min (height (grid s) - 1) (tank_y t))\<rparr>) s"

definition applyMovements :: "'c manager \<Rightarrow> intents \<Rightarrow> 'c manager option" where
  "applyMovements s intents0 =
     (let p1Move = intents0 P1;
          p2Move = intents0 P2;
          si = wallCheck P1 p1Move (s, intents0);
          si = wallCheck P2 p2Move si;
          si = headOnCheck si;
          si = sameTargetCheck si;
          si = blockedCheck P1 si;
          si = blockedCheck P2 si
      in case moveResult P1 p1Move (snd si) (fst si) of
           None \<Rightarrow> None
         | Some s1 \<Rightarrow>
             (case moveResult P2 p2Move (snd si) s1 of
                None \<Rightarrow> None
              | Some s2 \<Rightarrow> Some (clampTank P2 (clampTank P1 s2))))"

section \<open>Constructor and setupArena\<close>

text \<open>
  \<^verbatim>\<open>setupArena(level)\<close>. The level is compared with \<^verbatim>\<open>===\<close> against 2 and 3; every
  other value (the default 1 included) leaves the cleared wall set empty.
\<close>

definition setupArena :: "int \<Rightarrow> 'c manager \<Rightarrow> 'c manager" where
  "setupArena level s =
     (let g = (grid s)\<lparr>walls := {}\<rparr>;
          g = (if level = 2
               then addWall 8 5 (addWall 8 4 (addWall 7 5 (addWall 7 4 g)))
               else if level = 3
               then foldl (\<lambda>g pos. addWall (fst pos) (snd pos) g) g
                      [(4, 2), (4, 7), (12, 2), (12, 7), (8, 1), (8, 8)]
               else g)
      in s\<lparr>grid := g\<rparr>)"

definition new_tank :: "start_pos \<Rightarrow> int \<Rightarrow> 'c tank" where
  "new_tank sp h =
     \<lparr>tank_x = start_x sp, tank_y = start_y sp, facing = start_facing sp, hp = h, cpu = None,
      lastAction = None, lastFeedback = None, debugPC = Some 0, debugIR = None,
      debugRegisters = [], tank_turnOps = 0, totalOps = 0\<rparr>"

definition new_BattleManager :: "config \<Rightarrow> 'c manager" where
  "new_BattleManager cfg =
     setupArena 1
       \<lparr>grid = new_Grid (GRID_WIDTH cfg) (GRID_HEIGHT cfg),
        tanks = (\<lambda>tid. case tid of P1 \<Rightarrow> new_tank (START_P1 cfg) (INITIAL_HP cfg)
                                  | P2 \<Rightarrow> new_tank (START_P2 cfg) (INITIAL_HP cfg)),
        bullets = [], log = [], events = [], isGameOver = False, winner = None,
        pendingActions = (\<lambda>_. None), turnOps = (\<lambda>_. 0), turnCount = 0,
        MAX_OPS = MAX_OPS_PER_TURN cfg, eventIdCounter = 0\<rparr>"

section \<open>Collaborators that are not part of the sources\<close>

record parse_result =
  pr_error :: "string option"
  pr_program :: "instr list"
  pr_labels :: "(string \<times> int) list"

record ray_result =
  distance :: int
  rtype :: int

text \<open>
  The tokenizer, the parser, the CPU class and \<^verbatim>\<open>Grid.raycast\<close> are imported from files
  that are not part of the sources. The engine only calls them, so they are a parameter:
  \<open>'c\<close> is the state of a CPU object, \<open>'t\<close> a token sequence. A method that mutates the
  CPU returns its new state; \<open>step\<close> also returns the result object (\<open>None\<close> for a falsy
  result). \<open>registers\<close> and \<open>program\<close> read the two fields the engine looks at.
\<close>

record ('c, 't) deps =
  tokenize :: "string \<Rightarrow> 't"
  parse :: "'t \<Rightarrow> parse_result"
  new_CPU :: "instr list \<Rightarrow> (string \<times> int) list \<Rightarrow> 'c"
  updateTankState :: "'c \<Rightarrow> int \<Rightarrow> int \<Rightarrow> int \<Rightarrow> int \<Rightarrow> int \<Rightarrow> 'c"
  step :: "'c \<Rightarrow> action option \<times> 'c"
  setRegister :: "'c \<Rightarrow> string option \<Rightarrow> int \<Rightarrow> 'c"
  registers :: "'c \<Rightarrow> (string \<times> int) list"
  program :: "'c \<Rightarrow> instr list"
  raycast :: "grid \<Rightarrow> int \<Rightarrow> int \<Rightarrow> int \<Rightarrow> int \<Rightarrow> tank_id \<Rightarrow> tank_id \<Rightarrow>
              (int \<times> int \<rightharpoonup> tank_id) \<Rightarrow> ray_result"

section \<open>resetTurnState and loadCode\<close>

definition resetTurnState :: "config \<Rightarrow> 'c manager \<Rightarrow> 'c manager" where
  "resetTurnState cfg s =
     (let s = s\<lparr>pendingActions := (\<lambda>_. None), turnOps := (\<lambda>_. 0), turnCount := 0,
                isGameOver := False, winner := None, log := [''Turn reset.''],
                events := [], bullets := []\<rparr>;
          s = upd_tank P1 (\<lambda>t. t\<lparr>tank_x := start_x (START_P1 cfg), tank_y := start_y (START_P1 cfg),
                                  facing := start_facing (START_P1 cfg), hp := INITIAL_HP cfg,
                                  totalOps := 0\<rparr>) s;
          s = upd_tank P2 (\<lambda>t. t\<lparr>tank_x := start_x (START_P2 cfg), tank_y := start_y (START_P2 cfg),
                                  facing := start_facing (START_P2 cfg), hp := INITIAL_HP cfg,
                                  totalOps := 0\<rparr>) s
      in s)"

record load_result =
  success :: bool
  lr_error :: "string option"
  p1Program :: "instr list option"
  p2Program :: "instr list option"

text \<open>The test \<^verbatim>\<open>if (p.error)\<close>: a missing or empty message is falsy.\<close>

definition error_message :: "parse_result \<Rightarrow> string option" where
  "error_message p = (case pr_error p of None \<Rightarrow> None | Some m \<Rightarrow> if m = [] then None else Some m)"

definition load_failed :: "string \<Rightarrow> load_result" where
  "load_failed msg = \<lparr>success = False, lr_error = Some msg, p1Program = None, p2Program = None\<rparr>"

text \<open>
  \<^verbatim>\<open>loadCode\<close>: the \<^verbatim>\<open>throw\<close> inside the \<^verbatim>\<open>try\<close> block leaves the block at once, and
  the \<^verbatim>\<open>catch\<close> returns the failure object; what was assigned before the throw stays.
\<close>

definition loadCode ::
  "('c, 't) deps \<Rightarrow> config \<Rightarrow> string \<Rightarrow> string \<Rightarrow> 'c manager \<Rightarrow> load_result \<times> 'c manager" where
  "loadCode d cfg p1Code p2Code s =
     (let t1 = tokenize d p1Code;
          p1 = parse d t1
      in case error_message p1 of
           Some m \<Rightarrow> (load_failed (''P1 Error: '' @ m), s)
         | None \<Rightarrow>
             (let s = upd_tank P1 (\<lambda>t. t\<lparr>cpu := Some (new_CPU d (pr_program p1) (pr_labels p1))\<rparr>) s;
                  t2 = tokenize d p2Code;
                  p2 = parse d t2
              in case error_message p2 of
                   Some m \<Rightarrow> (load_failed (''P2 Error: '' @ m), s)
                 | None \<Rightarrow>
                     (let s = upd_tank P2
                                (\<lambda>t. t\<lparr>cpu := Some (new_CPU d (pr_program p2) (pr_labels p2))\<rparr>) s;
                          s = s\<lparr>log := log s @ [''Simulation Started.'']\<rparr>;
                          s = resetTurnState cfg s
                      in (\<lparr>success = True, lr_error = None, p1Program = Some (pr_program p1),
                           p2Program = Some (pr_program p2)\<rparr>, s))))"

section \<open>stepCPU\<close>

definition hasActiveBullet :: "tank_id \<Rightarrow> 'c manager \<Rightarrow> bool" where
  "hasActiveBullet tankId s = list_ex (\<lambda>b. owner b = tankId) (bullets s)"

text \<open>
  The text of the instruction register. A program counter below the length of the program
  reads \<^verbatim>\<open>program[pc]\<close>; for a negative one that is \<^verbatim>\<open>undefined\<close> and reading its opcode
  throws (\<open>None\<close>). A missing \<^verbatim>\<open>PC\<close> compares false and gives \<^verbatim>\<open>HALT\<close>.
\<close>

definition fetchIR :: "instr list \<Rightarrow> int option \<Rightarrow> string option" where
  "fetchIR prog pc =
     (case pc of
        None \<Rightarrow> Some ''HALT''
      | Some p \<Rightarrow>
          if p < int (length prog)
          then (if p < 0 then None
                else Some (instr_opcode (prog ! nat p) @ '' '' @ join '', '' (instr_args (prog ! nat p))))
          else Some ''HALT'')"

text \<open>The argument \<^verbatim>\<open>hasActiveBullet ? 0 : 1\<close> handed to \<^verbatim>\<open>updateTankState\<close>.\<close>

definition ammoArg :: "tank_id \<Rightarrow> 'c manager \<Rightarrow> int" where
  "ammoArg tankId s = (if hasActiveBullet tankId s then 0 else 1)"

definition recordResult :: "tank_id \<Rightarrow> action option \<Rightarrow> 'c manager \<Rightarrow> 'c manager" where
  "recordResult tankId result s =
     (case result of
        None \<Rightarrow>
          (upd_tank tankId (\<lambda>t. t\<lparr>lastAction := Some ''HALT''\<rparr>) s)
            \<lparr>pendingActions := (pendingActions s)(tankId := Some (plain_action ''HALT''))\<rparr>
      | Some r \<Rightarrow>
          if atype r = ''CPU_OP''
          then upd_tank tankId (\<lambda>t. t\<lparr>lastAction := opcode r\<rparr>) s
          else if atype r \<noteq> ''WAIT''
          then (upd_tank tankId (\<lambda>t. t\<lparr>lastAction := Some (atype r)\<rparr>) s)
                 \<lparr>pendingActions := (pendingActions s)(tankId := Some r)\<rparr>
          else (upd_tank tankId (\<lambda>t. t\<lparr>lastFeedback := reason r\<rparr>) s)
                 \<lparr>pendingActions := (pendingActions s)(tankId := Some r)\<rparr>)"

definition stepCPU ::
  "('c, 't) deps \<Rightarrow> tank_id \<Rightarrow> 'c manager \<Rightarrow> (action option \<times> 'c manager) option" where
  "stepCPU d tankId s =
     (let tank = tanks s tankId
      in case cpu tank of
           None \<Rightarrow> Some (None, s)
         | Some c0 \<Rightarrow>
             if hp tank \<le> 0 then Some (None, s)
             else
               (let c1 = updateTankState d c0 (tank_x tank) (tank_y tank) (facing tank) (hp tank)
                           (ammoArg tankId s);
                    pc = map_of (registers d c1) ''PC''
                in case fetchIR (program d c1) pc of
                     None \<Rightarrow> None
                   | Some ir \<Rightarrow>
                       (let res = step d c1;
                            result = fst res;
                            c2 = snd res;
                            s = upd_tank tankId
                                  (\<lambda>t. t\<lparr>lastFeedback := None, debugPC := pc, debugIR := Some ir,
                                         cpu := Some c2\<rparr>) s;
                            s = s\<lparr>turnOps := (turnOps s)(tankId := turnOps s tankId + 1)\<rparr>;
                            s = upd_tank tankId
                                  (\<lambda>t. t\<lparr>totalOps := totalOps t + 1,
                                         debugRegisters := registers d c2\<rparr>) s
                        in Some (result, recordResult tankId result s))))"

section \<open>updateBullets\<close>

text \<open>
  One pass of the loop over \<^verbatim>\<open>['P1', 'P2']\<close> for a bullet at its new cell: the owner is
  skipped, a living tank in the cell loses one HP and the bullet stops being active.
\<close>

definition hitTank :: "bullet \<Rightarrow> tank_id \<Rightarrow> bool \<times> 'c manager \<Rightarrow> bool \<times> 'c manager" where
  "hitTank b tid acc =
     (if tid = owner b then acc
      else
        (let s = snd acc; t = tanks s tid
         in if hp t > 0 \<and> tank_x t = bullet_x b \<and> tank_y t = bullet_y b
            then
              (let s = upd_tank tid (\<lambda>t. t\<lparr>hp := hp t - 1\<rparr>) s;
                   s = logTick (owner b)
                         (tid_str (owner b) @ '' bullet hits '' @ tid_str tid @ ''! HP: '' @
                          String_of (hp (tanks s tid))) s;
                   s = addEvent ''EXPLOSION''
                         (explosion_data (bullet_x b) (bullet_y b) (owner b) (Some tid)) s
               in (False, s))
            else acc))"

text \<open>The body of the sub-step loop, entered with \<^verbatim>\<open>active\<close> true.\<close>

definition subStep :: "config \<Rightarrow> bullet \<Rightarrow> 'c manager \<Rightarrow> bool \<times> bullet \<times> 'c manager" where
  "subStep cfg b0 s =
     (let b = b0\<lparr>bullet_x := bullet_x b0 + dx b0, bullet_y := bullet_y b0 + dy b0,
                 dist := dist b0 + 1\<rparr>
      in if dist b > BULLET_MAX_RANGE cfg then (False, b, s)
         else if \<not> isValid (grid s) (bullet_x b) (bullet_y b)
         then (False, b,
               addEvent ''EXPLOSION'' (explosion_data (bullet_x b) (bullet_y b) (owner b) None) s)
         else (let r = hitTank b P2 (hitTank b P1 (True, s)) in (fst r, b, snd r)))"

text \<open>
  \<^verbatim>\<open>for (let i = 0; i < BULLET_SPEED; i++) { if (!active) break; ... }\<close> with the number
  of iterations that are left as the first argument.
\<close>

fun subSteps :: "nat \<Rightarrow> config \<Rightarrow> bool \<times> bullet \<times> 'c manager \<Rightarrow> bool \<times> bullet \<times> 'c manager" where
  "subSteps 0 cfg st = st"
| "subSteps (Suc n) cfg (active, b, s) =
     (if \<not> active then (active, b, s) else subSteps n cfg (subStep cfg b s))"

text \<open>The loop over the bullets, with the list \<^verbatim>\<open>surviving\<close> as accumulator.\<close>

fun bulletLoop :: "config \<Rightarrow> bullet list \<Rightarrow> bullet list \<times> 'c manager \<Rightarrow> bullet list \<times> 'c manager" where
  "bulletLoop cfg [] acc = acc"
| "bulletLoop cfg (b # bs) (surviving, s) =
     (case subSteps (BULLET_SPEED cfg) cfg (True, b, s) of
        (active, b', s') \<Rightarrow>
          bulletLoop cfg bs (if active then surviving @ [b'] else surviving, s'))"

definition updateBullets :: "config \<Rightarrow> 'c manager \<Rightarrow> 'c manager" where
  "updateBullets cfg s =
     (case bulletLoop cfg (bullets s) ([], s) of
        (surviving, s') \<Rightarrow> s'\<lparr>bullets := surviving\<rparr>)"

section \<open>Sensors\<close>

definition typeName :: "int \<Rightarrow> string" where
  "typeName ty = (if ty = 0 then ''EMPTY'' else if ty = 1 then ''WALL''
                  else if ty = 2 then ''TANK'' else ''EMPTY'')"

definition resolveScan ::
  "('c, 't) deps \<Rightarrow> tank_id \<Rightarrow> action \<Rightarrow> 'c manager \<Rightarrow> 'c manager option" where
  "resolveScan d tankId a s =
     (let tank = tanks s tankId;
          enemyId = enemy_of tankId;
          enemy = tanks s enemyId;
          entityMap = (if hp enemy > 0 then [(tank_x enemy, tank_y enemy) \<mapsto> enemyId] else Map.empty)
      in case DIRS (facing tank) of
           None \<Rightarrow> None
         | Some dv \<Rightarrow>
             (let result = raycast d (grid s) (tank_x tank) (tank_y tank) (fst dv) (snd dv)
                             tankId enemyId entityMap
              in case cpu tank of
                   None \<Rightarrow> None
                 | Some c \<Rightarrow>
                     (let c = setRegister d c (destDist a) (distance result);
                          c = setRegister d c (destType a) (rtype result);
                          s = upd_tank tankId (\<lambda>t. t\<lparr>cpu := Some c\<rparr>) s
                      in Some (logTick tankId
                           (tid_str tankId @ '' scans: '' @ typeName (rtype result) @ '' at dist '' @
                            String_of (distance result)) s))))"

definition resolvePing ::
  "('c, 't) deps \<Rightarrow> tank_id \<Rightarrow> action \<Rightarrow> 'c manager \<Rightarrow> 'c manager option" where
  "resolvePing d tankId a s =
     (let tank = tanks s tankId;
          enemyId = enemy_of tankId;
          enemy = tanks s enemyId
      in case cpu tank of
           None \<Rightarrow> None
         | Some c \<Rightarrow>
             if hp enemy > 0
             then
               (let c = setRegister d c (destX a) (tank_x enemy);
                    c = setRegister d c (destY a) (tank_y enemy);
                    s = upd_tank tankId (\<lambda>t. t\<lparr>cpu := Some c\<rparr>) s;
                    s = addEvent ''PING''
                          (ping_data tankId (tank_x tank) (tank_y tank) (tank_x enemy) (tank_y enemy)) s
                in Some (logTick tankId
                     (tid_str tankId @ '' pings: enemy at ('' @ String_of (tank_x enemy) @ '','' @
                      String_of (tank_y enemy) @ '')'') s))
             else
               (let c = setRegister d c (destX a) (- 1);
                    c = setRegister d c (destY a) (- 1);
                    s = upd_tank tankId (\<lambda>t. t\<lparr>cpu := Some c\<rparr>) s;
                    s = addEvent ''PING''
                          (ping_data tankId (tank_x tank) (tank_y tank) (- 1) (- 1)) s
                in Some (logTick tankId (tid_str tankId @ '' pings: no enemy'') s)))"

section \<open>resolveAction\<close>

definition rotateTank :: "tank_id \<Rightarrow> action \<Rightarrow> 'c manager \<Rightarrow> 'c manager" where
  "rotateTank tankId a s =
     (let dirName = (if dir a = Some ''LEFT'' then ''left'' else ''right'');
          s = (if dir a = Some ''LEFT''
               then upd_tank tankId (\<lambda>t. t\<lparr>facing := js_rem (facing t + 3) 4\<rparr>) s else s);
          s = (if dir a = Some ''RIGHT''
               then upd_tank tankId (\<lambda>t. t\<lparr>facing := js_rem (facing t + 1) 4\<rparr>) s else s)
      in logTick tankId (tid_str tankId @ '' turns '' @ dirName) s)"

definition moveIntent :: "tank_id \<Rightarrow> action \<Rightarrow> 'c manager \<Rightarrow> intent option" where
  "moveIntent tankId a s =
     (let tank = tanks s tankId;
          dirIdx = facing tank;
          dirIdx = (if dir a = Some ''BACKWARD'' then js_rem (dirIdx + 2) 4 else dirIdx)
      in case DIRS dirIdx of
           None \<Rightarrow> None
         | Some d \<Rightarrow> Some \<lparr>targetX = tank_x tank + fst d, targetY = tank_y tank + snd d\<rparr>)"

definition spawnBullet :: "tank_id \<Rightarrow> int \<Rightarrow> int \<Rightarrow> int \<times> int \<Rightarrow> 'c manager \<Rightarrow> 'c manager" where
  "spawnBullet tankId startX startY d s =
     s\<lparr>bullets := bullets s @
          [\<lparr>bullet_id = eventIdCounter s, bullet_x = startX, bullet_y = startY,
            dx = fst d, dy = snd d, owner = tankId, dist = 0\<rparr>],
       eventIdCounter := eventIdCounter s + 1\<rparr>"

definition fire :: "tank_id \<Rightarrow> 'c manager \<Rightarrow> 'c manager option" where
  "fire tankId s =
     (let tank = tanks s tankId
      in if hasActiveBullet tankId s
         then Some (logTick tankId (tid_str tankId @ '' fires (reloading)'')
                      (setFeedback tankId ''RELOADING'' s))
         else
           (case DIRS (facing tank) of
              None \<Rightarrow> None
            | Some d \<Rightarrow>
                (let startX = tank_x tank + fst d;
                     startY = tank_y tank + snd d
                 in if \<not> isValid (grid s) startX startY
                    then Some (logTick tankId (tid_str tankId @ '' fires (blocked)'')
                                 (setFeedback tankId ''BLOCKED''
                                    (addEvent ''EXPLOSION''
                                       (explosion_data startX startY tankId None) s)))
                    else
                      (let enemyId = enemy_of tankId;
                           enemy = tanks s enemyId
                       in if hp enemy > 0 \<and> tank_x enemy = startX \<and> tank_y enemy = startY
                          then
                            (let s = upd_tank enemyId (\<lambda>t. t\<lparr>hp := hp t - 1\<rparr>) s;
                                 s = logTick tankId
                                       (tid_str tankId @ '' fires - direct hit! '' @ tid_str enemyId @
                                        '' HP: '' @ String_of (hp (tanks s enemyId))) s
                             in Some (addEvent ''EXPLOSION''
                                        (explosion_data startX startY tankId (Some enemyId)) s))
                          else Some (spawnBullet tankId startX startY d
                                       (logTick tankId (tid_str tankId @ '' fires'') s))))))"

definition resolveAction ::
  "tank_id \<Rightarrow> action option \<Rightarrow> 'c manager \<times> intents \<Rightarrow> ('c manager \<times> intents) option" where
  "resolveAction tankId ao si =
     (case ao of
        None \<Rightarrow> Some si
      | Some a \<Rightarrow>
          if atype a \<in> set [''DEAD'', ''HALT'', ''WAIT''] then Some si
          else if atype a = ''ROTATE'' then Some (rotateTank tankId a (fst si), snd si)
          else if atype a = ''MOVE''
          then (case moveIntent tankId a (fst si) of
                  None \<Rightarrow> None
                | Some m \<Rightarrow> Some (fst si, (snd si)(tankId := Some m)))
          else if atype a = ''FIRE''
          then (case fire tankId (fst si) of None \<Rightarrow> None | Some s \<Rightarrow> Some (s, snd si))
          else Some si)"

section \<open>resolveTurn and getState\<close>

definition isType :: "string \<Rightarrow> action option \<Rightarrow> bool" where
  "isType ty ao = (case ao of None \<Rightarrow> False | Some a \<Rightarrow> atype a = ty)"

definition sensor ::
  "(tank_id \<Rightarrow> action \<Rightarrow> 'c manager \<Rightarrow> 'c manager option) \<Rightarrow> string \<Rightarrow> tank_id \<Rightarrow>
   action option \<Rightarrow> 'c manager \<Rightarrow> 'c manager option" where
  "sensor resolve ty tankId ao s =
     (case ao of
        None \<Rightarrow> Some s
      | Some a \<Rightarrow> if atype a = ty then resolve tankId a s else Some s)"

text \<open>The game-over conditions at the end of \<^verbatim>\<open>resolveTurn\<close>, in the order of the code.\<close>

definition destroyedCheck :: "'c manager \<Rightarrow> 'c manager" where
  "destroyedCheck s =
     (if hp (tanks s P1) \<le> 0 \<and> hp (tanks s P2) \<le> 0
      then (let s = logTick P1 ''P1 destroyed!'' s;
                s = logTick P2 ''P2 destroyed!'' s;
                s = s\<lparr>isGameOver := True, winner := Some ''DRAW''\<rparr>
            in s\<lparr>log := log s @ [''=== DRAW - MUTUAL DESTRUCTION ==='']\<rparr>)
      else if hp (tanks s P1) \<le> 0
      then (let s = logTick P1 ''P1 destroyed!'' s;
                s = s\<lparr>isGameOver := True, winner := Some ''P2''\<rparr>
            in s\<lparr>log := log s @ [''=== P2 WINS! ==='']\<rparr>)
      else if hp (tanks s P2) \<le> 0
      then (let s = logTick P2 ''P2 destroyed!'' s;
                s = s\<lparr>isGameOver := True, winner := Some ''P1''\<rparr>
            in s\<lparr>log := log s @ [''=== P1 WINS! ==='']\<rparr>)
      else s)"

definition stalemateCheck :: "'c manager \<Rightarrow> 'c manager" where
  "stalemateCheck s =
     (if \<not> isGameOver s \<and> isType ''HALT'' (pendingActions s P1) \<and> isType ''HALT'' (pendingActions s P2)
      then s\<lparr>isGameOver := True, winner := Some ''DRAW (STALEMATE)'',
              log := log s @ [''=== DRAW - STALEMATE ==='']\<rparr>
      else s)"

definition turnLimitCheck :: "config \<Rightarrow> 'c manager \<Rightarrow> 'c manager" where
  "turnLimitCheck cfg s =
     (if \<not> isGameOver s \<and> turnCount s \<ge> MAX_TURNS cfg
      then s\<lparr>isGameOver := True, winner := Some ''DRAW (TURN LIMIT)'',
              log := log s @ [''=== DRAW - TURN LIMIT ==='']\<rparr>
      else s)"

definition gameOverCheck :: "config \<Rightarrow> 'c manager \<Rightarrow> 'c manager" where
  "gameOverCheck cfg s = turnLimitCheck cfg (stalemateCheck (destroyedCheck s))"

definition beginTurn :: "'c manager \<Rightarrow> 'c manager" where
  "beginTurn s =
     (let s = s\<lparr>turnCount := turnCount s + 1\<rparr>;
          s = s\<lparr>turnOps := (turnOps s)(P1 := 0, P2 := 0)\<rparr>;
          s = upd_tank P1 (\<lambda>t. t\<lparr>lastFeedback := None\<rparr>) s;
          s = upd_tank P2 (\<lambda>t. t\<lparr>lastFeedback := None\<rparr>) s
      in s)"

definition resolveTurn :: "('c, 't) deps \<Rightarrow> config \<Rightarrow> 'c manager \<Rightarrow> 'c manager option" where
  "resolveTurn d cfg s0 =
     (let s = beginTurn s0;
          p1Action = pendingActions s P1;
          p2Action = pendingActions s P2;
          s = updateBullets cfg s
      in do {
           s \<leftarrow> sensor (resolveScan d) ''SCAN'' P1 p1Action s;
           s \<leftarrow> sensor (resolveScan d) ''SCAN'' P2 p2Action s;
           s \<leftarrow> sensor (resolvePing d) ''PING'' P1 p1Action s;
           s \<leftarrow> sensor (resolvePing d) ''PING'' P2 p2Action s;
           si \<leftarrow> resolveAction P1 p1Action (s, (\<lambda>_. None));
           si \<leftarrow> resolveAction P2 p2Action si;
           s \<leftarrow> applyMovements (fst si) (snd si);
           Some ((gameOverCheck cfg s)\<lparr>pendingActions := (pendingActions s)(P1 := None, P2 := None)\<rparr>)
         })"

record 'c game_state =
  gs_tanks :: "tank_id \<Rightarrow> 'c tank"
  gs_bullets :: "bullet list"
  gs_log :: "string list"
  gs_events :: "event list"
  gs_gameOver :: bool
  gs_winner :: "string option"
  gs_turnCount :: int

text \<open>\<^verbatim>\<open>getState()\<close>, read on values: every field of the snapshot is the engine's value.\<close>

definition getState :: "'c manager \<Rightarrow> 'c game_state" where
  "getState s =
     \<lparr>gs_tanks = tanks s, gs_bullets = bullets s, gs_log = log s, gs_events = events s,
      gs_gameOver = isGameOver s, gs_winner = winner s, gs_turnCount = turnCount s\<rparr>"

section \<open>getState and object identity\<close>

text \<open>
  Bullets and events are objects; the arrays \<^verbatim>\<open>this.bullets\<close> and \<^verbatim>\<open>this.events\<close> hold
  references to them, and so do the arrays that \<^verbatim>\<open>[...this.bullets]\<close> and
  \<^verbatim>\<open>[...this.events]\<close> build for the snapshot. The value model above reads a bullet
  list as the objects its references point to; here the references are explicit. Log
  entries are strings, which cannot be mutated, and the tanks of the snapshot are rebuilt
  from their JSON text, so neither shares an object with the engine.
\<close>

type_synonym ref = nat

record js_heap =
  bullet_obj :: "ref \<rightharpoonup> bullet"
  event_obj :: "ref \<rightharpoonup> event"

record engine_arrays =
  bullets_arr :: "ref list"
  events_arr :: "ref list"
  log_arr :: "string list"

record snapshot_arrays =
  snap_bullets :: "ref list"
  snap_events :: "ref list"
  snap_log :: "string list"

text \<open>The three spread copies of \<^verbatim>\<open>getState()\<close>: new arrays with the same elements.\<close>

definition getState_arrays :: "engine_arrays \<Rightarrow> snapshot_arrays" where
  "getState_arrays e =
     \<lparr>snap_bullets = bullets_arr e, snap_events = events_arr e, snap_log = log_arr e\<rparr>"

text \<open>What an array of references shows when its elements are read.\<close>

definition read_bullets :: "js_heap \<Rightarrow> ref list \<Rightarrow> bullet option list" where
  "read_bullets h refs = map (bullet_obj h) refs"

definition read_events :: "js_heap \<Rightarrow> ref list \<Rightarrow> event option list" where
  "read_events h refs = map (event_obj h) refs"

text \<open>
  The caller's statement \<^verbatim>\<open>arr[i].x = v\<close> on an array of bullet references: it throws
  (\<open>None\<close>) when the element is missing, and otherwise writes the field of the object.
\<close>

definition assign_bullet_x :: "ref list \<Rightarrow> nat \<Rightarrow> int \<Rightarrow> js_heap \<Rightarrow> js_heap option" where
  "assign_bullet_x arr i v h =
     (if i < length arr
      then (case bullet_obj h (arr ! i) of
              None \<Rightarrow> None
            | Some b \<Rightarrow> Some (h\<lparr>bullet_obj := (bullet_obj h)(arr ! i \<mapsto> b\<lparr>bullet_x := v\<rparr>)\<rparr>))
      else None)"

text \<open>The caller's statement \<^verbatim>\<open>arr[i].hitTank = v\<close> on an array of event references.\<close>

definition assign_event_hitTank ::
  "ref list \<Rightarrow> nat \<Rightarrow> tank_id option \<Rightarrow> js_heap \<Rightarrow> js_heap option" where
  "assign_event_hitTank arr i v h =
     (if i < length arr
      then (case event_obj h (arr ! i) of
              None \<Rightarrow> None
            | Some e \<Rightarrow> Some (h\<lparr>event_obj := (event_obj h)(arr ! i \<mapsto> e\<lparr>ev_hitTank := v\<rparr>)\<rparr>))
      else None)"

text \<open>The caller's statement \<^verbatim>\<open>arr.push(r)\<close> on an array of the snapshot.\<close>

definition push_snapshot_bullet :: "ref \<Rightarrow> snapshot_arrays \<Rightarrow> snapshot_arrays" where
  "push_snapshot_bullet r sn = sn\<lparr>snap_bullets := snap_bullets sn @ [r]\<rparr>"

section \<open>The conflict priority in the words of the specification\<close>

datatype outcome = NoIntent | Wall | Collision | Blocked | Moves

definition valid_intent :: "grid \<Rightarrow> intent option \<Rightarrow> intent option" where
  "valid_intent g mo =
     (case mo of None \<Rightarrow> None
      | Some m \<Rightarrow> if isValid g (targetX m) (targetY m) then Some m else None)"

text \<open>
  The ordered filter of the specification, read for one tank: wall first, then a swap, then
  a shared target (both only against an intent of the other tank that passed the wall
  check), then the other tank's current cell.
\<close>

definition move_outcome :: "'c manager \<Rightarrow> intents \<Rightarrow> tank_id \<Rightarrow> outcome" where
  "move_outcome s ints tid =
     (case ints tid of
        None \<Rightarrow> NoIntent
      | Some m \<Rightarrow>
          if \<not> isValid (grid s) (targetX m) (targetY m) then Wall
          else
            (case valid_intent (grid s) (ints (enemy_of tid)) of
               Some om \<Rightarrow>
                 if targets_cell m (tanks s (enemy_of tid)) \<and> targets_cell om (tanks s tid)
                 then Collision
                 else if same_target m om then Collision
                 else if targets_cell m (tanks s (enemy_of tid)) then Blocked
                 else Moves
             | None \<Rightarrow> if targets_cell m (tanks s (enemy_of tid)) then Blocked else Moves))"

definition outcome_feedback :: "outcome \<Rightarrow> string option \<Rightarrow> string option" where
  "outcome_feedback oc old =
     (case oc of Wall \<Rightarrow> Some ''WALL'' | Collision \<Rightarrow> Some ''COLLISION''
      | Blocked \<Rightarrow> Some ''BLOCKED'' | Moves \<Rightarrow> old | NoIntent \<Rightarrow> old)"

definition outcome_cell :: "outcome \<Rightarrow> intent option \<Rightarrow> int \<times> int \<Rightarrow> int \<times> int" where
  "outcome_cell oc mo old =
     (case mo of None \<Rightarrow> old
      | Some m \<Rightarrow> if oc = Moves then (targetX m, targetY m) else old)"

definition clamp_cell :: "grid \<Rightarrow> int \<times> int \<Rightarrow> int \<times> int" where
  "clamp_cell g c = (max 0 (min (width g - 1) (fst c)), max 0 (min (height g - 1) (snd c)))"

section \<open>The wall layouts and the status invariant in the words of the claims\<close>

definition level_walls :: "int \<Rightarrow> (int \<times> int) set" where
  "level_walls level =
     (if level = 2 then {(7, 4), (7, 5), (8, 4), (8, 5)}
      else if level = 3 then {(4, 2), (4, 7), (12, 2), (12, 7), (8, 1), (8, 8)}
      else {})"

text \<open>The winner is set exactly when the game is over.\<close>

definition status_inv :: "'c manager \<Rightarrow> bool" where
  "status_inv s \<longleftrightarrow> (winner s \<noteq> None) = isGameOver s"


section \<open>The game-over evaluation in the words of the specification\<close>

text \<open>
  The order of the specification (both destroyed, one destroyed, stalemate, turn limit),
  with the HP the tanks have after the turn's damage, the pending actions and the turn
  count the turn started with, and one more case in front of the last two: a game that
  was already over keeps its status and winner.
\<close>

definition verdict :: "config \<Rightarrow> 'c manager \<Rightarrow> int \<Rightarrow> int \<Rightarrow> bool \<times> string option" where
  "verdict cfg s0 hp1 hp2 =
     (if hp1 \<le> 0 \<and> hp2 \<le> 0 then (True, Some ''DRAW'')
      else if hp1 \<le> 0 then (True, Some ''P2'')
      else if hp2 \<le> 0 then (True, Some ''P1'')
      else if isGameOver s0 then (True, winner s0)
      else if isType ''HALT'' (pendingActions s0 P1) \<and> isType ''HALT'' (pendingActions s0 P2)
      then (True, Some ''DRAW (STALEMATE)'')
      else if turnCount s0 + 1 \<ge> MAX_TURNS cfg then (True, Some ''DRAW (TURN LIMIT)'')
      else (False, winner s0))"

text \<open>
  What a call of \<^verbatim>\<open>resolveTurn\<close> needs in order not to throw: both facings index the
  table \<^verbatim>\<open>DIRS\<close>, and a tank whose pending action is a sensor query has a CPU to write
  the answer to.
\<close>

definition needs_cpu :: "action option \<Rightarrow> bool" where
  "needs_cpu ao \<longleftrightarrow> isType ''SCAN'' ao \<or> isType ''PING'' ao"

definition valid_facing :: "int \<Rightarrow> bool" where
  "valid_facing i \<longleftrightarrow> DIRS i \<noteq> None"

definition turn_ok :: "'c manager \<Rightarrow> bool" where
  "turn_ok s \<longleftrightarrow>
     valid_facing (facing (tanks s P1)) \<and> valid_facing (facing (tanks s P2)) \<and>
     (if needs_cpu (pendingActions s P1) then cpu (tanks s P1) \<noteq> None else True) \<and>
     (if needs_cpu (pendingActions s P2) then cpu (tanks s P2) \<noteq> None else True)"


section \<open>The bullet invariant in the words of the specification\<close>

definition live_bullets_of :: "tank_id \<Rightarrow> 'c manager \<Rightarrow> nat" where
  "live_bullets_of tid s = length (filter (\<lambda>b. owner b = tid) (bullets s))"

text \<open>At most one live bullet per owner.\<close>

definition one_bullet_per_owner :: "'c manager \<Rightarrow> bool" where
  "one_bullet_per_owner s \<longleftrightarrow> live_bullets_of P1 s \<le> 1 \<and> live_bullets_of P2 s \<le> 1"


text \<open>
  The states the public operations can lead to from the constructor (a call that throws
  leads nowhere).
\<close>

inductive reachable :: "('c, 't) deps \<Rightarrow> config \<Rightarrow> 'c manager \<Rightarrow> bool" for d cfg where
  constructed: "reachable d cfg (new_BattleManager cfg)"
| arena_set: "reachable d cfg s \<Longrightarrow> reachable d cfg (setupArena level s)"
| code_loaded: "reachable d cfg s \<Longrightarrow> reachable d cfg (snd (loadCode d cfg p1Code p2Code s))"
| turn_reset: "reachable d cfg s \<Longrightarrow> reachable d cfg (resetTurnState cfg s)"
| cpu_stepped: "reachable d cfg s \<Longrightarrow> stepCPU d tid s = Some (r, s') \<Longrightarrow> reachable d cfg s'"
| turn_resolved: "reachable d cfg s \<Longrightarrow> resolveTurn d cfg s = Some s' \<Longrightarrow> reachable d cfg s'"


section \<open>The fate of a bullet in the words of the specification\<close>

text \<open>The bullet one cell further along its direction.\<close>

definition moved :: "bullet \<Rightarrow> bullet" where
  "moved b = b\<lparr>bullet_x := bullet_x b + dx b, bullet_y := bullet_y b + dy b, dist := dist b + 1\<rparr>"

definition out_of_range :: "config \<Rightarrow> bullet \<Rightarrow> bool" where
  "out_of_range cfg b \<longleftrightarrow> dist b > BULLET_MAX_RANGE cfg"

text \<open>The bullet's cell is off the grid or a wall.\<close>

definition hits_obstacle :: "'c manager \<Rightarrow> bullet \<Rightarrow> bool" where
  "hits_obstacle s b \<longleftrightarrow> \<not> isValid (grid s) (bullet_x b) (bullet_y b)"

text \<open>The bullet's cell holds the living tank that is not its owner.\<close>

definition hits_tank :: "'c manager \<Rightarrow> bullet \<Rightarrow> bool" where
  "hits_tank s b \<longleftrightarrow>
     hp (tanks s (enemy_of (owner b))) > 0 \<and>
     tank_x (tanks s (enemy_of (owner b))) = bullet_x b \<and>
     tank_y (tanks s (enemy_of (owner b))) = bullet_y b"

text \<open>No obstruction on the next \<open>n\<close> cells of the bullet's way.\<close>

fun free_path :: "'c manager \<Rightarrow> bullet \<Rightarrow> nat \<Rightarrow> bool" where
  "free_path s b 0 = True"
| "free_path s b (Suc n) =
     (\<not> hits_obstacle s (moved b) \<and> \<not> hits_tank s (moved b) \<and> free_path s (moved b) n)"

text \<open>The explosion events of a dying bullet, as \<^verbatim>\<open>addEvent\<close> stores them.\<close>

definition explosion_events :: "config \<Rightarrow> 'c manager \<Rightarrow> bullet \<Rightarrow> event list" where
  "explosion_events cfg s b =
     (if out_of_range cfg b then []
      else if hits_obstacle s b
      then [(explosion_data (bullet_x b) (bullet_y b) (owner b) None)
              \<lparr>ev_id := eventIdCounter s, ev_type := ''EXPLOSION''\<rparr>]
      else if hits_tank s b
      then [(explosion_data (bullet_x b) (bullet_y b) (owner b) (Some (enemy_of (owner b))))
              \<lparr>ev_id := eventIdCounter s, ev_type := ''EXPLOSION''\<rparr>]
      else [])"


text \<open>
  The result of a micro-step of a program that has nothing but HALT to run: a HALT result,
  or no result at all.
\<close>

definition halts :: "action option \<Rightarrow> bool" where
  "halts r = (case r of None \<Rightarrow> True | Some a \<Rightarrow> atype a = ''HALT'')"

section \<open>Auxiliary notions of the proofs\<close>

text \<open>The conditions of the four checks of \<^verbatim>\<open>applyMovements\<close>, and the six checks in a row.\<close>

definition hitsWall :: "grid \<Rightarrow> intent option \<Rightarrow> bool" where
  "hitsWall g mo = (case mo of None \<Rightarrow> False | Some m \<Rightarrow> \<not> isValid g (targetX m) (targetY m))"

definition isSwap :: "'c manager \<times> intents \<Rightarrow> bool" where
  "isSwap si =
     (case (snd si P1, snd si P2) of
        (Some i1, Some i2) \<Rightarrow>
          targets_cell i1 (tanks (fst si) P2) \<and> targets_cell i2 (tanks (fst si) P1)
      | _ \<Rightarrow> False)"

definition isSameTarget :: "'c manager \<times> intents \<Rightarrow> bool" where
  "isSameTarget si =
     (case (snd si P1, snd si P2) of (Some i1, Some i2) \<Rightarrow> same_target i1 i2 | _ \<Rightarrow> False)"

definition isBlocked :: "tank_id \<Rightarrow> 'c manager \<times> intents \<Rightarrow> bool" where
  "isBlocked tid si =
     (case snd si tid of
        None \<Rightarrow> False
      | Some m \<Rightarrow> targets_cell m (tanks (fst si) (enemy_of tid)))"

definition filterIntents :: "'c manager \<Rightarrow> intents \<Rightarrow> 'c manager \<times> intents" where
  "filterIntents s ints =
     blockedCheck P2 (blockedCheck P1 (sameTargetCheck (headOnCheck
       (wallCheck P2 (ints P2) (wallCheck P1 (ints P1) (s, ints))))))"

section \<open>A concrete CPU for the examples\<close>

text \<open>
  A stand-in for the collaborators, used only to run the engine on concrete inputs. The
  CPU keeps the list of calls it received and a script of results that \<open>step\<close> hands
  out one by one (a falsy result once the script is used up). The parser rejects exactly
  the source text \<open>BAD\<close>.
\<close>

datatype call = UpdateTankState int int int int int | Step | SetRegister "string option" int

record test_cpu =
  calls :: "call list"
  script :: "action list"

definition test_deps :: "(test_cpu, string) deps" where
  "test_deps =
     \<lparr>tokenize = (\<lambda>src. src),
      parse = (\<lambda>toks. if toks = ''BAD''
                       then \<lparr>pr_error = Some ''line 1: unknown opcode'', pr_program = [], pr_labels = []\<rparr>
                       else \<lparr>pr_error = None,
                             pr_program = [\<lparr>instr_opcode = toks, instr_args = []\<rparr>],
                             pr_labels = []\<rparr>),
      new_CPU = (\<lambda>prog labels. \<lparr>calls = [], script = map (\<lambda>i. plain_action (instr_opcode i)) prog\<rparr>),
      updateTankState = (\<lambda>c px py f h ammo. c\<lparr>calls := calls c @ [UpdateTankState px py f h ammo]\<rparr>),
      step = (\<lambda>c. case script c of
                     [] \<Rightarrow> (None, c\<lparr>calls := calls c @ [Step]\<rparr>)
                   | a # rest \<Rightarrow> (Some a, c\<lparr>calls := calls c @ [Step], script := rest\<rparr>)),
      setRegister = (\<lambda>c name v. c\<lparr>calls := calls c @ [SetRegister name v]\<rparr>),
      registers = (\<lambda>c. []),
      program = (\<lambda>c. []),
      raycast = (\<lambda>g ox oy rdx rdy self enemy occ. \<lparr>distance = 0, rtype = 0\<rparr>)\<rparr>"

text \<open>The engine as the constructor leaves it, with the inlined constants.\<close>

definition test_arena :: "test_cpu manager" where
  "test_arena = new_BattleManager (inlined_config 1000)"

section \<open>Concrete states for the examples\<close>

text \<open>
  P1 at its start cell (0, 4) steps back off the grid while P2, standing at (1, 4), steps
  onto P1's cell.
\<close>

definition wall_blocked_state :: "test_cpu manager" where
  "wall_blocked_state = upd_tank P2 (\<lambda>t. t\<lparr>tank_x := 1, tank_y := 4\<rparr>) test_arena"

definition wall_blocked_intents :: intents where
  "wall_blocked_intents =
     (\<lambda>_. None)(P1 := Some \<lparr>targetX = - 1, targetY = 4\<rparr>, P2 := Some \<lparr>targetX = 0, targetY = 4\<rparr>)"

section \<open>Frame relations of the proofs\<close>

text \<open>What no step of a turn before the game-over evaluation touches.\<close>

definition frame :: "'c manager \<Rightarrow> 'c manager \<Rightarrow> bool" where
  "frame s s' \<longleftrightarrow>
     grid s' = grid s \<and> isGameOver s' = isGameOver s \<and> winner s' = winner s \<and>
     pendingActions s' = pendingActions s \<and> turnCount s' = turnCount s \<and>
     turnOps s' = turnOps s \<and> MAX_OPS s' = MAX_OPS s"

text \<open>Facings stay what they are and no CPU is taken away.\<close>

definition keeps_tanks :: "'c manager \<Rightarrow> 'c manager \<Rightarrow> bool" where
  "keeps_tanks s s' \<longleftrightarrow>
     facing (tanks s' P1) = facing (tanks s P1) \<and> facing (tanks s' P2) = facing (tanks s P2) \<and>
     (cpu (tanks s' P1) = None) = (cpu (tanks s P1) = None) \<and>
     (cpu (tanks s' P2) = None) = (cpu (tanks s P2) = None)"

text \<open>Both tanks have a HALT pending on the fresh arena.\<close>

definition halted_state :: "test_cpu manager" where
  "halted_state = test_arena\<lparr>pendingActions := (\<lambda>_. Some (plain_action ''HALT''))\<rparr>"

text \<open>
  A game that ended by the turn limit, after which both programs ran off their end: both
  tanks are alive and both pending actions are HALT.
\<close>

definition limit_then_halt_state :: "test_cpu manager" where
  "limit_then_halt_state =
     halted_state\<lparr>isGameOver := True, winner := Some ''DRAW (TURN LIMIT)'', turnCount := 1000\<rparr>"

text \<open>The enemy stands destroyed (HP 0) in the cell right in front of P1.\<close>

definition dead_enemy_state :: "test_cpu manager" where
  "dead_enemy_state = upd_tank P2 (\<lambda>t. t\<lparr>tank_x := 1, tank_y := 4, hp := 0\<rparr>) test_arena"

text \<open>P1 has a program whose next result is FIRE; in the second state its bullet is in flight.\<close>

definition armed_state :: "test_cpu manager" where
  "armed_state =
     upd_tank P1 (\<lambda>t. t\<lparr>cpu := Some \<lparr>calls = [], script = [plain_action ''FIRE'']\<rparr>\<rparr>) test_arena"

definition reloading_state :: "test_cpu manager" where
  "reloading_state =
     armed_state\<lparr>bullets := [\<lparr>bullet_id = 0, bullet_x = 3, bullet_y = 4, dx = 1, dy = 0,
                               owner = P1, dist = 2\<rparr>]\<rparr>"

text \<open>Both programs loaded (MOVE for P1, ROTATE for P2).\<close>

definition loaded_state :: "test_cpu manager" where
  "loaded_state = snd (loadCode test_deps (inlined_config 1000) ''MOVE'' ''ROTATE'' test_arena)"

text \<open>One bullet of P1 in flight and one explosion event, as objects 0 and 1 of the heap.\<close>

definition flying_bullet :: bullet where
  "flying_bullet = \<lparr>bullet_id = 0, bullet_x = 3, bullet_y = 4, dx = 1, dy = 0, owner = P1, dist = 2\<rparr>"

definition wall_event :: event where
  "wall_event = (explosion_data 16 5 P2 None)\<lparr>ev_id := 1, ev_type := ''EXPLOSION''\<rparr>"

definition heap0 :: js_heap where
  "heap0 = \<lparr>bullet_obj = [0 \<mapsto> flying_bullet], event_obj = [1 \<mapsto> wall_event]\<rparr>"

definition engine0 :: engine_arrays where
  "engine0 = \<lparr>bullets_arr = [0], events_arr = [1], log_arr = [''Turn reset.'']\<rparr>"

text \<open>P1 asks to fire again while its bullet is still in flight.\<close>

definition refire_state :: "test_cpu manager" where
  "refire_state =
     reloading_state\<lparr>pendingActions := (\<lambda>_. None)(P1 := Some (plain_action ''FIRE''))\<rparr>"

text \<open>A range of three cells, and the bullet P1 has just fired from its start cell.\<close>

definition short_range_config :: config where
  "short_range_config = (inlined_config 1000)\<lparr>BULLET_MAX_RANGE := 3\<rparr>"

definition fresh_bullet :: bullet where
  "fresh_bullet = \<lparr>bullet_id = 0, bullet_x = 1, bullet_y = 4, dx = 1, dy = 0, owner = P1, dist = 0\<rparr>"

text \<open>A bullet of P1 one cell west of P2's start cell (15, 5), flying east.\<close>

definition closing_bullet :: bullet where
  "closing_bullet = \<lparr>bullet_id = 0, bullet_x = 14, bullet_y = 5, dx = 1, dy = 0, owner = P1, dist = 5\<rparr>"

text \<open>
  Steps 2 to 4 of \<^verbatim>\<open>resolveTurn\<close> and its game-over evaluation, on the state the bullet
  advance left and with the two pending actions read at the start of the turn.
\<close>

definition afterBullets ::
  "('c, 't) deps \<Rightarrow> config \<Rightarrow> action option \<Rightarrow> action option \<Rightarrow> 'c manager \<Rightarrow> 'c manager option" where
  "afterBullets d cfg p1Action p2Action s =
     do {
       s \<leftarrow> sensor (resolveScan d) ''SCAN'' P1 p1Action s;
       s \<leftarrow> sensor (resolveScan d) ''SCAN'' P2 p2Action s;
       s \<leftarrow> sensor (resolvePing d) ''PING'' P1 p1Action s;
       s \<leftarrow> sensor (resolvePing d) ''PING'' P2 p2Action s;
       si \<leftarrow> resolveAction P1 p1Action (s, (\<lambda>_. None));
       si \<leftarrow> resolveAction P2 p2Action si;
       s \<leftarrow> applyMovements (fst si) (snd si);
       Some ((gameOverCheck cfg s)\<lparr>pendingActions := (pendingActions s)(P1 := None, P2 := None)\<rparr>)
     }"

text \<open>A bullet of P1 is one cell west of P2 when the turn starts; nobody has an action.\<close>

definition closing_state :: "test_cpu manager" where
  "closing_state = test_arena\<lparr>bullets := [closing_bullet]\<rparr>"

text \<open>
  Two programs made of the single instruction HALT, loaded over a game that had ended by
  the turn limit.
\<close>

definition halt_loaded_state :: "test_cpu manager" where
  "halt_loaded_state =
     snd (loadCode test_deps (inlined_config 1000) ''HALT'' ''HALT'' limit_then_halt_state)"

section \<open>Projections of the state updates\<close>

lemma tanks_upd_tank [simp]: "tanks (upd_tank tid f s) t = (if t = tid then f (tanks s tid) else tanks s t)"
  by (simp add: upd_tank_def)
lemma grid_upd_tank [simp]: "grid (upd_tank tid f s) = grid s"
  by (simp add: upd_tank_def)
lemma tanks_logTick [simp]: "tanks (logTick tid m s) = tanks s"
  by (simp add: logTick_def)
lemma grid_logTick [simp]: "grid (logTick tid m s) = grid s"
  by (simp add: logTick_def)

lemma test_arena_fields:
  "grid test_arena = \<lparr>width = 16, height = 10, walls = {}\<rparr>"
  "tanks test_arena P1 = new_tank \<lparr>start_x = 0, start_y = 4, start_facing = 0\<rparr> 3"
  "tanks test_arena P2 = new_tank \<lparr>start_x = 15, start_y = 5, start_facing = 2\<rparr> 3"
  "bullets test_arena = []" "events test_arena = []" "log test_arena = []"
  "isGameOver test_arena = False" "winner test_arena = None"
  "pendingActions test_arena = (\<lambda>_. None)" "turnCount test_arena = 0"
  "eventIdCounter test_arena = 0"
  by (simp_all add: test_arena_def new_BattleManager_def inlined_config_def setupArena_def new_Grid_def)

section \<open>Movement conflict resolution (C1)\<close>

lemma same_target_sym: "same_target a b = same_target b a"
  by (auto simp: same_target_def)

lemma wallCheck_eq:
  "wallCheck tid m si = (if hitsWall (grid (fst si)) m
      then (setFeedback tid ''WALL'' (fst si), (snd si)(tid := None)) else si)"
  by (simp add: wallCheck_def hitsWall_def split: option.splits)

lemma headOnCheck_eq:
  "headOnCheck si = (if isSwap si
      then (setFeedback P2 ''COLLISION'' (setFeedback P1 ''COLLISION'' (fst si)), (snd si)(P1 := None, P2 := None))
      else si)"
  by (simp add: headOnCheck_def isSwap_def split: option.splits)

lemma sameTargetCheck_eq:
  "sameTargetCheck si = (if isSameTarget si
      then (setFeedback P2 ''COLLISION'' (setFeedback P1 ''COLLISION'' (fst si)), (snd si)(P1 := None, P2 := None))
      else si)"
  by (simp add: sameTargetCheck_def isSameTarget_def split: option.splits)

lemma blockedCheck_eq:
  "blockedCheck tid si = (if isBlocked tid si
      then (setFeedback tid ''BLOCKED'' (fst si), (snd si)(tid := None)) else si)"
  by (simp add: blockedCheck_def isBlocked_def split: option.splits)

lemma wallCheck_proj [simp]:
  "grid (fst (wallCheck tid m si)) = grid (fst si)"
  "tank_x (tanks (fst (wallCheck tid m si)) t) = tank_x (tanks (fst si) t)"
  "tank_y (tanks (fst (wallCheck tid m si)) t) = tank_y (tanks (fst si) t)"
  "targets_cell i (tanks (fst (wallCheck tid m si)) t) = targets_cell i (tanks (fst si) t)"
  "lastFeedback (tanks (fst (wallCheck tid m si)) t) =
     (if t = tid \<and> hitsWall (grid (fst si)) m then Some ''WALL'' else lastFeedback (tanks (fst si) t))"
  "snd (wallCheck tid m si) t = (if t = tid \<and> hitsWall (grid (fst si)) m then None else snd si t)"
  by (simp_all add: wallCheck_eq setFeedback_def targets_cell_def)

lemma headOnCheck_proj [simp]:
  "grid (fst (headOnCheck si)) = grid (fst si)"
  "tank_x (tanks (fst (headOnCheck si)) t) = tank_x (tanks (fst si) t)"
  "tank_y (tanks (fst (headOnCheck si)) t) = tank_y (tanks (fst si) t)"
  "targets_cell i (tanks (fst (headOnCheck si)) t) = targets_cell i (tanks (fst si) t)"
  "lastFeedback (tanks (fst (headOnCheck si)) t) =
     (if isSwap si then Some ''COLLISION'' else lastFeedback (tanks (fst si) t))"
  "snd (headOnCheck si) t = (if isSwap si then None else snd si t)"
  by (cases t; simp add: headOnCheck_eq setFeedback_def targets_cell_def)+

lemma sameTargetCheck_proj [simp]:
  "grid (fst (sameTargetCheck si)) = grid (fst si)"
  "tank_x (tanks (fst (sameTargetCheck si)) t) = tank_x (tanks (fst si) t)"
  "tank_y (tanks (fst (sameTargetCheck si)) t) = tank_y (tanks (fst si) t)"
  "targets_cell i (tanks (fst (sameTargetCheck si)) t) = targets_cell i (tanks (fst si) t)"
  "lastFeedback (tanks (fst (sameTargetCheck si)) t) =
     (if isSameTarget si then Some ''COLLISION'' else lastFeedback (tanks (fst si) t))"
  "snd (sameTargetCheck si) t = (if isSameTarget si then None else snd si t)"
  by (cases t; simp add: sameTargetCheck_eq setFeedback_def targets_cell_def)+

lemma blockedCheck_proj [simp]:
  "grid (fst (blockedCheck tid si)) = grid (fst si)"
  "tank_x (tanks (fst (blockedCheck tid si)) t) = tank_x (tanks (fst si) t)"
  "tank_y (tanks (fst (blockedCheck tid si)) t) = tank_y (tanks (fst si) t)"
  "targets_cell i (tanks (fst (blockedCheck tid si)) t) = targets_cell i (tanks (fst si) t)"
  "lastFeedback (tanks (fst (blockedCheck tid si)) t) =
     (if t = tid \<and> isBlocked tid si then Some ''BLOCKED'' else lastFeedback (tanks (fst si) t))"
  "snd (blockedCheck tid si) t = (if t = tid \<and> isBlocked tid si then None else snd si t)"
  by (simp_all add: blockedCheck_eq setFeedback_def targets_cell_def)

lemma filter_proj [simp]:
  "grid (fst (filterIntents s ints)) = grid s"
  "tank_x (tanks (fst (filterIntents s ints)) t) = tank_x (tanks s t)"
  "tank_y (tanks (fst (filterIntents s ints)) t) = tank_y (tanks s t)"
  by (simp_all add: filterIntents_def)

lemma filter_snd:
  "snd (filterIntents s ints) t = (if move_outcome s ints t = Moves then ints t else None)"
  apply (cases t; cases "ints P1"; cases "ints P2")
  apply (simp_all add: filterIntents_def hitsWall_def isSwap_def isSameTarget_def isBlocked_def
      move_outcome_def valid_intent_def enemy_of_def)
  apply (auto simp: same_target_def)
  done

lemma filter_fb:
  "lastFeedback (tanks (fst (filterIntents s ints)) t) =
     outcome_feedback (move_outcome s ints t) (lastFeedback (tanks s t))"
  apply (cases t; cases "ints P1"; cases "ints P2")
  apply (simp_all add: filterIntents_def hitsWall_def isSwap_def isSameTarget_def isBlocked_def
      move_outcome_def valid_intent_def enemy_of_def outcome_feedback_def)
  apply (auto simp: same_target_def)
  done

lemma moveResult_Some:
  assumes "move \<noteq> None \<Longrightarrow> ints' tid = None \<Longrightarrow> lastFeedback (tanks s0 tid) \<noteq> None"
  shows "\<exists>s1. moveResult tid move ints' s0 = Some s1 \<and> grid s1 = grid s0 \<and>
           tanks s1 = (case (move, ints' tid) of
                         (Some _, Some m) \<Rightarrow>
                            (tanks s0)(tid := (tanks s0 tid)\<lparr>tank_x := targetX m, tank_y := targetY m\<rparr>)
                       | _ \<Rightarrow> tanks s0)"
  using assms
  by (cases move; cases "ints' tid"; cases "lastFeedback (tanks s0 tid)")
     (auto simp: moveResult_def Let_def upd_tank_def logTick_def)

lemma outcome_facts:
  "ints t = None \<Longrightarrow> move_outcome s ints t = NoIntent"
  "move_outcome s ints t = Moves \<Longrightarrow> ints t \<noteq> None"
  "ints t \<noteq> None \<Longrightarrow> move_outcome s ints t \<noteq> NoIntent"
  by (auto simp: move_outcome_def split: option.splits if_splits)

lemma outcome_feedback_rejected:
  "oc \<noteq> Moves \<Longrightarrow> oc \<noteq> NoIntent \<Longrightarrow> outcome_feedback oc old \<noteq> None"
  by (cases oc) (auto simp: outcome_feedback_def)

lemma clampTank_proj [simp]:
  "grid (clampTank tid s) = grid s"
  "tanks (clampTank tid s) t =
     (if t = tid then (tanks s t)\<lparr>tank_x := max 0 (min (width (grid s) - 1) (tank_x (tanks s t))),
                                   tank_y := max 0 (min (height (grid s) - 1) (tank_y (tanks s t)))\<rparr>
      else tanks s t)"
  by (simp_all add: clampTank_def)

text \<open>
  The run of \<^verbatim>\<open>applyMovements\<close> in terms of the six checks: the feedback is the one the
  checks left, and a tank moves to its target exactly when its intent survived them.
\<close>

lemma applyMovements_run:
  "\<exists>s'. applyMovements s ints = Some s' \<and>
     (\<forall>tid. lastFeedback (tanks s' tid) = lastFeedback (tanks (fst (filterIntents s ints)) tid) \<and>
            (tank_x (tanks s' tid), tank_y (tanks s' tid)) =
              clamp_cell (grid s)
                (case snd (filterIntents s ints) tid of
                   Some m \<Rightarrow> (targetX m, targetY m)
                 | None \<Rightarrow> (tank_x (tanks s tid), tank_y (tanks s tid))))"
proof -
  define si where "si = filterIntents s ints"
  have am: "applyMovements s ints =
      (case moveResult P1 (ints P1) (snd si) (fst si) of None \<Rightarrow> None
       | Some s1 \<Rightarrow> (case moveResult P2 (ints P2) (snd si) s1 of None \<Rightarrow> None
          | Some s2 \<Rightarrow> Some (clampTank P2 (clampTank P1 s2))))"
    by (simp only: applyMovements_def si_def filterIntents_def Let_def)
  have surv: "snd si t = (if move_outcome s ints t = Moves then ints t else None)" for t
    by (simp add: si_def filter_snd)
  have fb: "lastFeedback (tanks (fst si) t) =
      outcome_feedback (move_outcome s ints t) (lastFeedback (tanks s t))" for t
    by (simp add: si_def filter_fb)
  have pos: "tank_x (tanks (fst si) t) = tank_x (tanks s t)"
            "tank_y (tanks (fst si) t) = tank_y (tanks s t)" for t
    by (simp_all add: si_def)
  have g: "grid (fst si) = grid s" by (simp add: si_def)
  have rej: "ints t \<noteq> None \<Longrightarrow> snd si t = None \<Longrightarrow> lastFeedback (tanks (fst si) t) \<noteq> None" for t
    using outcome_feedback_rejected [of "move_outcome s ints t"] outcome_facts(3) [of ints t s]
    by (auto simp: surv fb split: if_splits)
  have gone: "ints t = None \<Longrightarrow> snd si t = None" for t
    by (simp add: surv)
  obtain s1 where s1: "moveResult P1 (ints P1) (snd si) (fst si) = Some s1" "grid s1 = grid s"
    and t1: "tanks s1 = (case (ints P1, snd si P1) of
                         (Some _, Some m) \<Rightarrow>
                            (tanks (fst si))(P1 := (tanks (fst si) P1)\<lparr>tank_x := targetX m, tank_y := targetY m\<rparr>)
                       | _ \<Rightarrow> tanks (fst si))"
    using moveResult_Some [of "ints P1" "snd si" P1 "fst si"] rej [of P1] g by auto
  have fb2: "lastFeedback (tanks s1 P2) = lastFeedback (tanks (fst si) P2)"
    by (simp add: t1 split: option.splits)
  obtain s2 where s2: "moveResult P2 (ints P2) (snd si) s1 = Some s2" "grid s2 = grid s"
    and t2: "tanks s2 = (case (ints P2, snd si P2) of
                         (Some _, Some m) \<Rightarrow>
                            (tanks s1)(P2 := (tanks s1 P2)\<lparr>tank_x := targetX m, tank_y := targetY m\<rparr>)
                       | _ \<Rightarrow> tanks s1)"
    using moveResult_Some [of "ints P2" "snd si" P2 s1] rej [of P2] s1(2) fb2 by auto
  have res: "applyMovements s ints = Some (clampTank P2 (clampTank P1 s2))"
    by (simp add: am s1 s2)
  have "lastFeedback (tanks (clampTank P2 (clampTank P1 s2)) tid) = lastFeedback (tanks (fst si) tid) \<and>
        (tank_x (tanks (clampTank P2 (clampTank P1 s2)) tid),
         tank_y (tanks (clampTank P2 (clampTank P1 s2)) tid)) =
          clamp_cell (grid s)
            (case snd si tid of
               Some m \<Rightarrow> (targetX m, targetY m)
             | None \<Rightarrow> (tank_x (tanks s tid), tank_y (tanks s tid)))" for tid
    using gone [of P1] gone [of P2]
    by (cases tid; cases "ints P1"; cases "ints P2"; cases "snd si P1"; cases "snd si P2")
       (simp_all add: t1 t2 s1 s2 pos clamp_cell_def)
  with res show ?thesis unfolding si_def by blast
qed

lemma applyMovements_total: "\<exists>s'. applyMovements s ints = Some s'"
  using applyMovements_run [of s ints] by blast

text \<open>
  C1, as amended. \<^verbatim>\<open>applyMovements\<close> never throws, and it is the ordered filter of the
  specification read per tank: the feedback of each tank is \<open>WALL\<close>, \<open>COLLISION\<close> or
  \<open>BLOCKED\<close> when its intent is rejected by the first check that applies in the order
  wall, swap, same target, other tank's unmoved cell, and is left as it was when the tank
  moves or has no intent; a rejected intent is never applied; a surviving intent sets the
  tank's position to its target; both positions are then clamped to the grid. Each intent
  has exactly one outcome (\<open>move_outcome\<close> is a function), but the two intents of one
  turn can have different outcomes.
\<close>

theorem applyMovements_priority:
  "\<exists>s'. applyMovements s ints = Some s' \<and>
     (\<forall>tid. lastFeedback (tanks s' tid) =
              outcome_feedback (move_outcome s ints tid) (lastFeedback (tanks s tid)) \<and>
            (tank_x (tanks s' tid), tank_y (tanks s' tid)) =
              clamp_cell (grid s)
                (outcome_cell (move_outcome s ints tid) (ints tid)
                   (tank_x (tanks s tid), tank_y (tanks s tid))))"
proof -
  from applyMovements_run [of s ints] obtain s' where
    r: "applyMovements s ints = Some s'" and
    f: "\<And>tid. lastFeedback (tanks s' tid) = lastFeedback (tanks (fst (filterIntents s ints)) tid)" and
    c: "\<And>tid. (tank_x (tanks s' tid), tank_y (tanks s' tid)) =
              clamp_cell (grid s)
                (case snd (filterIntents s ints) tid of
                   Some m \<Rightarrow> (targetX m, targetY m)
                 | None \<Rightarrow> (tank_x (tanks s tid), tank_y (tanks s tid)))"
    by blast
  have "(case snd (filterIntents s ints) tid of
           Some m \<Rightarrow> (targetX m, targetY m)
         | None \<Rightarrow> (tank_x (tanks s tid), tank_y (tanks s tid))) =
        outcome_cell (move_outcome s ints tid) (ints tid)
          (tank_x (tanks s tid), tank_y (tanks s tid))" for tid
    using outcome_facts(2) [of s ints tid]
    by (cases "ints tid") (auto simp: filter_snd outcome_cell_def)
  with r f c show ?thesis
    by (simp add: filter_fb)
qed

text \<open>
  C1 as stated fails: in one and the same resolution P1 is rejected by the wall check and
  P2 by the blocked check, so two of the outcomes wall, collision, blocked and both-succeed
  apply to this pair of intents.
\<close>

theorem applyMovements_wall_and_blocked:
  "(case applyMovements wall_blocked_state wall_blocked_intents of
      None \<Rightarrow> False
    | Some s' \<Rightarrow> lastFeedback (tanks s' P1) = Some ''WALL'' \<and>
                 lastFeedback (tanks s' P2) = Some ''BLOCKED'')"
proof -
  have o1: "move_outcome wall_blocked_state wall_blocked_intents P1 = Wall"
    by (simp add: move_outcome_def wall_blocked_state_def wall_blocked_intents_def test_arena_fields
          isValid_def)
  have o2: "move_outcome wall_blocked_state wall_blocked_intents P2 = Blocked"
    by (simp add: move_outcome_def wall_blocked_state_def wall_blocked_intents_def test_arena_fields
          new_tank_def isValid_def valid_intent_def enemy_of_def targets_cell_def)
  from applyMovements_run [of wall_blocked_state wall_blocked_intents]
  show ?thesis by (auto simp: filter_fb o1 o2 outcome_feedback_def)
qed

section \<open>setupArena (C10)\<close>

lemma setupArena_eq: "setupArena level s = s\<lparr>grid := (grid s)\<lparr>walls := level_walls level\<rparr>\<rparr>"
  by (simp add: setupArena_def level_walls_def addWall_def Let_def insert_commute)

text \<open>
  C10. \<^verbatim>\<open>setupArena(level)\<close> replaces the wall set by the fixed layout of the level (empty
  for every level other than 2 and 3) and changes nothing else: the grid dimensions, the
  tanks with their positions, facings, HP and CPUs, the bullets, events, log, pending
  actions, op and turn counters, the event id counter and the game-over status are the
  same after the call.
\<close>

theorem setupArena_frame:
  "walls (grid (setupArena level s)) = level_walls level \<and>
   width (grid (setupArena level s)) = width (grid s) \<and>
   height (grid (setupArena level s)) = height (grid s) \<and>
   tanks (setupArena level s) = tanks s \<and>
   bullets (setupArena level s) = bullets s \<and>
   events (setupArena level s) = events s \<and>
   log (setupArena level s) = log s \<and>
   pendingActions (setupArena level s) = pendingActions s \<and>
   turnOps (setupArena level s) = turnOps s \<and>
   turnCount (setupArena level s) = turnCount s \<and>
   MAX_OPS (setupArena level s) = MAX_OPS s \<and>
   eventIdCounter (setupArena level s) = eventIdCounter s \<and>
   isGameOver (setupArena level s) = isGameOver s \<and>
   winner (setupArena level s) = winner s \<and>
   setupArena level s = s\<lparr>grid := (grid s)\<lparr>walls := level_walls level\<rparr>\<rparr>"
proof -
  have "foldl (\<lambda>g pos. addWall (fst pos) (snd pos) g) g0
          [(4, 2), (4, 7), (12, 2), (12, 7), (8, 1), (8, 8)] =
        g0\<lparr>walls := {(4, 2), (4, 7), (12, 2), (12, 7), (8, 1), (8, 8)} \<union> walls g0\<rparr>" for g0 :: grid
    by (simp add: addWall_def insert_commute)
  moreover have "addWall 8 5 (addWall 8 4 (addWall 7 5 (addWall 7 4 g0))) =
        g0\<lparr>walls := {(7, 4), (7, 5), (8, 4), (8, 5)} \<union> walls g0\<rparr>" for g0 :: grid
    by (simp add: addWall_def insert_commute)
  ultimately have "setupArena level s = s\<lparr>grid := (grid s)\<lparr>walls := level_walls level\<rparr>\<rparr>"
    by (simp add: setupArena_def level_walls_def Let_def)
  then show ?thesis by simp
qed

section \<open>Frames of the steps of a turn\<close>

lemma logTick_fields [simp]:
  "isGameOver (logTick tid m s) = isGameOver s"
  "winner (logTick tid m s) = winner s"
  "pendingActions (logTick tid m s) = pendingActions s"
  "turnCount (logTick tid m s) = turnCount s"
  "turnOps (logTick tid m s) = turnOps s"
  "MAX_OPS (logTick tid m s) = MAX_OPS s"
  "bullets (logTick tid m s) = bullets s"
  "events (logTick tid m s) = events s"
  "eventIdCounter (logTick tid m s) = eventIdCounter s"
  by (simp_all add: logTick_def)

lemma addEvent_fields [simp]:
  "grid (addEvent ty e s) = grid s"
  "tanks (addEvent ty e s) = tanks s"
  "isGameOver (addEvent ty e s) = isGameOver s"
  "winner (addEvent ty e s) = winner s"
  "pendingActions (addEvent ty e s) = pendingActions s"
  "turnCount (addEvent ty e s) = turnCount s"
  "turnOps (addEvent ty e s) = turnOps s"
  "MAX_OPS (addEvent ty e s) = MAX_OPS s"
  "bullets (addEvent ty e s) = bullets s"
  "log (addEvent ty e s) = log s"
  "events (addEvent ty e s) = events s @ [e\<lparr>ev_id := eventIdCounter s, ev_type := ty\<rparr>]"
  "eventIdCounter (addEvent ty e s) = eventIdCounter s + 1"
  by (simp_all add: addEvent_def)

lemma upd_tank_fields [simp]:
  "isGameOver (upd_tank tid f s) = isGameOver s"
  "winner (upd_tank tid f s) = winner s"
  "pendingActions (upd_tank tid f s) = pendingActions s"
  "turnCount (upd_tank tid f s) = turnCount s"
  "turnOps (upd_tank tid f s) = turnOps s"
  "MAX_OPS (upd_tank tid f s) = MAX_OPS s"
  "bullets (upd_tank tid f s) = bullets s"
  "events (upd_tank tid f s) = events s"
  "log (upd_tank tid f s) = log s"
  "eventIdCounter (upd_tank tid f s) = eventIdCounter s"
  by (simp_all add: upd_tank_def)

lemma setFeedback_fields [simp]:
  "grid (setFeedback tid fb s) = grid s"
  "isGameOver (setFeedback tid fb s) = isGameOver s"
  "winner (setFeedback tid fb s) = winner s"
  "pendingActions (setFeedback tid fb s) = pendingActions s"
  "turnCount (setFeedback tid fb s) = turnCount s"
  "turnOps (setFeedback tid fb s) = turnOps s"
  "MAX_OPS (setFeedback tid fb s) = MAX_OPS s"
  "bullets (setFeedback tid fb s) = bullets s"
  "events (setFeedback tid fb s) = events s"
  "log (setFeedback tid fb s) = log s"
  "eventIdCounter (setFeedback tid fb s) = eventIdCounter s"
  "tanks (setFeedback tid fb s) t =
     (if t = tid then (tanks s tid)\<lparr>lastFeedback := Some fb\<rparr> else tanks s t)"
  by (simp_all add: setFeedback_def)

lemma frame_refl [simp]: "frame s s"
  by (simp add: frame_def)

lemma frame_trans [trans]: "frame s s1 \<Longrightarrow> frame s1 s2 \<Longrightarrow> frame s s2"
  by (simp add: frame_def)

lemma keeps_tanks_refl [simp]: "keeps_tanks s s"
  by (simp add: keeps_tanks_def)

lemma keeps_tanks_trans [trans]: "keeps_tanks s s1 \<Longrightarrow> keeps_tanks s1 s2 \<Longrightarrow> keeps_tanks s s2"
  by (simp add: keeps_tanks_def)

lemma frame_basic [simp]:
  "frame s (logTick tid m s)"
  "frame s (addEvent ty e s)"
  "frame s (upd_tank tid f s)"
  "frame s (setFeedback tid fb s)"
  by (simp_all add: frame_def)

lemma keeps_tanks_basic [simp]:
  "keeps_tanks s (logTick tid m s)"
  "keeps_tanks s (addEvent ty e s)"
  "keeps_tanks s (setFeedback tid fb s)"
  by (simp_all add: keeps_tanks_def)

lemma keeps_tanks_upd:
  "facing (f (tanks s tid)) = facing (tanks s tid) \<Longrightarrow>
   (cpu (f (tanks s tid)) = None) = (cpu (tanks s tid) = None) \<Longrightarrow>
   keeps_tanks s (upd_tank tid f s)"
  by (cases tid) (simp_all add: keeps_tanks_def)

lemma hitTank_frame: "frame (snd acc) (snd (hitTank b tid acc))"
  by (simp add: hitTank_def Let_def frame_def)

lemma hitTank_keeps: "keeps_tanks (snd acc) (snd (hitTank b tid acc))"
  by (cases tid) (simp_all add: hitTank_def Let_def keeps_tanks_def)

lemma hitTank_bullets: "bullets (snd (hitTank b tid acc)) = bullets (snd acc)"
  by (simp add: hitTank_def Let_def)

lemma hit_both_frame: "frame s (snd (hitTank b P2 (hitTank b P1 (True, s))))"
  using frame_trans [OF hitTank_frame [of "(True, s)" b P1] hitTank_frame [of "hitTank b P1 (True, s)" b P2]]
  by simp

lemma hit_both_keeps: "keeps_tanks s (snd (hitTank b P2 (hitTank b P1 (True, s))))"
  using keeps_tanks_trans [OF hitTank_keeps [of "(True, s)" b P1] hitTank_keeps [of "hitTank b P1 (True, s)" b P2]]
  by simp

lemma subStep_frame: "frame s (snd (snd (subStep cfg b s)))"
  by (simp add: subStep_def Let_def hit_both_frame)

lemma subStep_keeps: "keeps_tanks s (snd (snd (subStep cfg b s)))"
  by (simp add: subStep_def Let_def hit_both_keeps)

lemma subStep_bullets: "bullets (snd (snd (subStep cfg b s))) = bullets s"
  by (simp add: subStep_def Let_def hitTank_bullets)

lemma subStep_owner: "owner (fst (snd (subStep cfg b s))) = owner b"
  by (simp add: subStep_def Let_def)

lemma subSteps_props:
  "frame (snd (snd st)) (snd (snd (subSteps n cfg st))) \<and>
   keeps_tanks (snd (snd st)) (snd (snd (subSteps n cfg st))) \<and>
   bullets (snd (snd (subSteps n cfg st))) = bullets (snd (snd st)) \<and>
   owner (fst (snd (subSteps n cfg st))) = owner (fst (snd st))"
proof (induction n cfg st rule: subSteps.induct)
  case (1 cfg st)
  then show ?case by simp
next
  case (2 n cfg active b s)
  show ?case
  proof (cases active)
    case True
    with 2 show ?thesis
      using subStep_frame [of s cfg b] subStep_keeps [of s cfg b]
      by (auto simp: subStep_bullets subStep_owner intro: frame_trans keeps_tanks_trans)
  next
    case False
    then show ?thesis by simp
  qed
qed

lemma bulletLoop_props:
  "frame (snd acc) (snd (bulletLoop cfg bs acc)) \<and>
   keeps_tanks (snd acc) (snd (bulletLoop cfg bs acc)) \<and>
   bullets (snd (bulletLoop cfg bs acc)) = bullets (snd acc)"
proof (induction cfg bs acc rule: bulletLoop.induct)
  case (1 cfg acc)
  then show ?case by simp
next
  case (2 cfg b bs surviving s)
  obtain active b' s' where st: "subSteps (BULLET_SPEED cfg) cfg (True, b, s) = (active, b', s')"
    by (cases "subSteps (BULLET_SPEED cfg) cfg (True, b, s)") auto
  from subSteps_props [of "(True, b, s)" "BULLET_SPEED cfg" cfg] st
  have p: "frame s s'" "keeps_tanks s s'" "bullets s' = bullets s"
    by simp_all
  from 2 [OF st [symmetric] refl] st p show ?case
    by (auto intro: frame_trans keeps_tanks_trans)
qed

lemma bulletLoop_owners:
  "distinct (map owner (fst acc @ bs)) \<Longrightarrow>
   distinct (map owner (fst (bulletLoop cfg bs acc))) \<and>
   set (map owner (fst (bulletLoop cfg bs acc))) \<subseteq> set (map owner (fst acc @ bs))"
proof (induction cfg bs acc rule: bulletLoop.induct)
  case (1 cfg acc)
  then show ?case by simp
next
  case (2 cfg b bs surviving s)
  obtain active b' s' where st: "subSteps (BULLET_SPEED cfg) cfg (True, b, s) = (active, b', s')"
    by (cases "subSteps (BULLET_SPEED cfg) cfg (True, b, s)") auto
  from subSteps_props [of "(True, b, s)" "BULLET_SPEED cfg" cfg] st
  have ow: "owner b' = owner b" by simp
  let ?acc = "(if active then surviving @ [b'] else surviving, s')"
  have d: "distinct (map owner (fst ?acc @ bs))"
    using "2.prems" ow by auto
  have sub: "set (map owner (fst ?acc @ bs)) \<subseteq> set (map owner (surviving @ b # bs))"
    using ow by auto
  from "2.IH" [OF st [symmetric] refl d]
  have "distinct (map owner (fst (bulletLoop cfg bs ?acc)))"
    and "set (map owner (fst (bulletLoop cfg bs ?acc))) \<subseteq> set (map owner (fst ?acc @ bs))"
    by blast+
  with sub have "distinct (map owner (fst (bulletLoop cfg bs ?acc))) \<and>
      set (map owner (fst (bulletLoop cfg bs ?acc))) \<subseteq> set (map owner (surviving @ b # bs))"
    by blast
  then show ?case by (simp add: st)
qed

lemma updateBullets_frame: "frame s (updateBullets cfg s)"
  using bulletLoop_props [of "([], s)" cfg "bullets s"]
  by (cases "bulletLoop cfg (bullets s) ([], s)") (auto simp: updateBullets_def frame_def)

lemma updateBullets_keeps: "keeps_tanks s (updateBullets cfg s)"
  using bulletLoop_props [of "([], s)" cfg "bullets s"]
  by (cases "bulletLoop cfg (bullets s) ([], s)") (auto simp: updateBullets_def keeps_tanks_def)

lemma updateBullets_distinct:
  "distinct (map owner (bullets s)) \<Longrightarrow> distinct (map owner (bullets (updateBullets cfg s)))"
  using bulletLoop_owners [of "([], s)" "bullets s" cfg]
  by (cases "bulletLoop cfg (bullets s) ([], s)") (auto simp: updateBullets_def)

section \<open>Frames of the whole turn\<close>

lemma resolveScan_props:
  "resolveScan d tid a s = Some s' \<Longrightarrow> frame s s' \<and> keeps_tanks s s' \<and> bullets s' = bullets s"
  by (cases tid)
     (auto simp: resolveScan_def Let_def frame_def keeps_tanks_def split: option.splits)

lemma resolvePing_props:
  "resolvePing d tid a s = Some s' \<Longrightarrow> frame s s' \<and> keeps_tanks s s' \<and> bullets s' = bullets s"
  by (cases tid)
     (auto simp: resolvePing_def Let_def frame_def keeps_tanks_def split: option.splits if_splits)

lemma sensor_scan_props:
  "sensor (resolveScan d) ty tid ao s = Some s' \<Longrightarrow>
     frame s s' \<and> keeps_tanks s s' \<and> bullets s' = bullets s"
  by (auto simp: sensor_def split: option.splits if_splits dest: resolveScan_props)

lemma sensor_ping_props:
  "sensor (resolvePing d) ty tid ao s = Some s' \<Longrightarrow>
     frame s s' \<and> keeps_tanks s s' \<and> bullets s' = bullets s"
  by (auto simp: sensor_def split: option.splits if_splits dest: resolvePing_props)

lemma rotateTank_props:
  "frame s (rotateTank tid a s) \<and> bullets (rotateTank tid a s) = bullets s \<and>
   hp (tanks (rotateTank tid a s) t) = hp (tanks s t) \<and>
   (cpu (tanks (rotateTank tid a s) t) = None) = (cpu (tanks s t) = None)"
  by (simp add: rotateTank_def Let_def frame_def)

lemma fire_frame: "fire tid s = Some s' \<Longrightarrow> frame s s' \<and> keeps_tanks s s'"
  by (cases tid)
     (auto simp: fire_def Let_def frame_def keeps_tanks_def spawnBullet_def enemy_of_def
           split: option.splits if_splits)

lemma resolveAction_frame: "resolveAction tid ao si = Some si' \<Longrightarrow> frame (fst si) (fst si')"
  using rotateTank_props [of "fst si" tid]
  by (auto simp: resolveAction_def split: option.splits if_splits dest: fire_frame)

lemma checks_frame:
  "frame (fst si) (fst (wallCheck tid m si))"
  "frame (fst si) (fst (headOnCheck si))"
  "frame (fst si) (fst (sameTargetCheck si))"
  "frame (fst si) (fst (blockedCheck tid si))"
  by (simp_all add: wallCheck_eq headOnCheck_eq sameTargetCheck_eq blockedCheck_eq frame_def)

lemma checks_keeps:
  "keeps_tanks (fst si) (fst (wallCheck tid m si))"
  "keeps_tanks (fst si) (fst (headOnCheck si))"
  "keeps_tanks (fst si) (fst (sameTargetCheck si))"
  "keeps_tanks (fst si) (fst (blockedCheck tid si))"
  by (simp_all add: wallCheck_eq headOnCheck_eq sameTargetCheck_eq blockedCheck_eq keeps_tanks_def)

lemma checks_bullets:
  "bullets (fst (wallCheck tid m si)) = bullets (fst si)"
  "bullets (fst (headOnCheck si)) = bullets (fst si)"
  "bullets (fst (sameTargetCheck si)) = bullets (fst si)"
  "bullets (fst (blockedCheck tid si)) = bullets (fst si)"
  by (simp_all add: wallCheck_eq headOnCheck_eq sameTargetCheck_eq blockedCheck_eq)

lemma checks_hp:
  "hp (tanks (fst (wallCheck tid m si)) t) = hp (tanks (fst si) t)"
  "hp (tanks (fst (headOnCheck si)) t) = hp (tanks (fst si) t)"
  "hp (tanks (fst (sameTargetCheck si)) t) = hp (tanks (fst si) t)"
  "hp (tanks (fst (blockedCheck tid si)) t) = hp (tanks (fst si) t)"
  by (simp_all add: wallCheck_eq headOnCheck_eq sameTargetCheck_eq blockedCheck_eq)

lemma filter_frame: "frame s (fst (filterIntents s ints))"
  unfolding filterIntents_def
  by (rule frame_trans [OF _ checks_frame(4)], rule frame_trans [OF _ checks_frame(4)],
      rule frame_trans [OF _ checks_frame(3)], rule frame_trans [OF _ checks_frame(2)],
      rule frame_trans [OF _ checks_frame(1)], rule frame_trans [OF _ checks_frame(1)]) simp

lemma filter_bullets_hp:
  "bullets (fst (filterIntents s ints)) = bullets s"
  "hp (tanks (fst (filterIntents s ints)) t) = hp (tanks s t)"
  by (simp_all add: filterIntents_def checks_bullets checks_hp)

lemma moveResult_props:
  "moveResult tid move ints s = Some s' \<Longrightarrow>
     frame s s' \<and> bullets s' = bullets s \<and> hp (tanks s' t) = hp (tanks s t)"
  by (auto simp: moveResult_def Let_def frame_def split: option.splits)

lemma clampTank_props:
  "frame s (clampTank tid s) \<and> bullets (clampTank tid s) = bullets s \<and>
   hp (tanks (clampTank tid s) t) = hp (tanks s t)"
  by (simp add: clampTank_def frame_def)

lemma applyMovements_props:
  assumes "applyMovements s ints = Some s'"
  shows "frame s s' \<and> bullets s' = bullets s \<and> hp (tanks s' t) = hp (tanks s t)"
proof -
  define si where "si = filterIntents s ints"
  from assms obtain s1 s2 where
    m1: "moveResult P1 (ints P1) (snd si) (fst si) = Some s1" and
    m2: "moveResult P2 (ints P2) (snd si) s1 = Some s2" and
    r: "s' = clampTank P2 (clampTank P1 s2)"
    by (auto simp only: applyMovements_def si_def filterIntents_def Let_def split: option.splits)
  have f0: "frame s (fst si)" by (simp add: si_def filter_frame)
  note p1 = moveResult_props [OF m1, of t] and p2 = moveResult_props [OF m2, of t]
  note c1 = clampTank_props [of s2 P1 t] and c2 = clampTank_props [of "clampTank P1 s2" P2 t]
  have "frame s s'"
    unfolding r using f0 p1 p2 c1 c2 by (blast intro: frame_trans)
  moreover have "bullets s' = bullets s" "hp (tanks s' t) = hp (tanks s t)"
    unfolding r using p1 p2 c1 c2 by (simp_all add: si_def filter_bullets_hp)
  ultimately show ?thesis by simp
qed

lemma gameOverCheck_fields:
  "tanks (gameOverCheck cfg s) = tanks s"
  "bullets (gameOverCheck cfg s) = bullets s"
  "grid (gameOverCheck cfg s) = grid s"
  "pendingActions (gameOverCheck cfg s) = pendingActions s"
  "turnCount (gameOverCheck cfg s) = turnCount s"
  by (simp_all add: gameOverCheck_def turnLimitCheck_def stalemateCheck_def destroyedCheck_def Let_def)

lemma gameOverCheck_status_inv: "status_inv s \<Longrightarrow> status_inv (gameOverCheck cfg s)"
  by (simp add: gameOverCheck_def turnLimitCheck_def stalemateCheck_def destroyedCheck_def Let_def
        status_inv_def)

lemma resolveTurn_stages:
  assumes "resolveTurn d cfg s0 = Some s'"
  obtains s1 where "frame (beginTurn s0) s1"
    and "s' = (gameOverCheck cfg s1)\<lparr>pendingActions := (pendingActions s1)(P1 := None, P2 := None)\<rparr>"
proof -
  let ?b = "updateBullets cfg (beginTurn s0)"
  let ?a1 = "pendingActions (beginTurn s0) P1"
  let ?a2 = "pendingActions (beginTurn s0) P2"
  from assms obtain sa sb sc sd si1 si2 s1 where
    a: "sensor (resolveScan d) ''SCAN'' P1 ?a1 ?b = Some sa" and
    b: "sensor (resolveScan d) ''SCAN'' P2 ?a2 sa = Some sb" and
    c: "sensor (resolvePing d) ''PING'' P1 ?a1 sb = Some sc" and
    d: "sensor (resolvePing d) ''PING'' P2 ?a2 sc = Some sd" and
    e: "resolveAction P1 ?a1 (sd, (\<lambda>_. None)) = Some si1" and
    f: "resolveAction P2 ?a2 si1 = Some si2" and
    g: "applyMovements (fst si2) (snd si2) = Some s1" and
    h: "s' = (gameOverCheck cfg s1)\<lparr>pendingActions := (pendingActions s1)(P1 := None, P2 := None)\<rparr>"
    by (auto simp: resolveTurn_def Let_def split: Option.bind_splits)
  have "frame (beginTurn s0) ?b" by (rule updateBullets_frame)
  also have "frame ?b sa" using sensor_scan_props [OF a] by simp
  also have "frame sa sb" using sensor_scan_props [OF b] by simp
  also have "frame sb sc" using sensor_ping_props [OF c] by simp
  also have "frame sc sd" using sensor_ping_props [OF d] by simp
  also have "frame sd (fst si1)" using resolveAction_frame [OF e] by simp
  also have "frame (fst si1) (fst si2)" using resolveAction_frame [OF f] by simp
  also have "frame (fst si2) s1" using applyMovements_props [OF g] by simp
  finally have "frame (beginTurn s0) s1" .
  with h that show ?thesis by blast
qed

section \<open>resolveTurn does not throw on a well-formed state\<close>

lemma valid_facing_iff: "valid_facing i \<longleftrightarrow> 0 \<le> i \<and> i \<le> 3"
  by (auto simp: valid_facing_def DIRS_def)

lemma valid_facing_DIRS: "valid_facing i \<Longrightarrow> \<exists>v. DIRS i = Some v"
  by (auto simp: valid_facing_def)

lemma js_rem_4: "0 \<le> i \<Longrightarrow> 0 \<le> js_rem i 4 \<and> js_rem i 4 \<le> 3"
  by (auto simp: js_rem_def sgn_if)

lemma beginTurn_fields:
  "isGameOver (beginTurn s) = isGameOver s"
  "winner (beginTurn s) = winner s"
  "pendingActions (beginTurn s) = pendingActions s"
  "turnCount (beginTurn s) = turnCount s + 1"
  "grid (beginTurn s) = grid s"
  "bullets (beginTurn s) = bullets s"
  "hp (tanks (beginTurn s) t) = hp (tanks s t)"
  by (simp_all add: beginTurn_def Let_def)

lemma beginTurn_keeps: "keeps_tanks s (beginTurn s)"
  by (simp add: beginTurn_def Let_def keeps_tanks_def)

lemma sensor_scan_total:
  "valid_facing (facing (tanks s tid)) \<Longrightarrow> \<not> isType ty ao \<or> cpu (tanks s tid) \<noteq> None \<Longrightarrow>
   \<exists>s'. sensor (resolveScan d) ty tid ao s = Some s'"
  by (auto simp: sensor_def resolveScan_def isType_def Let_def valid_facing_def split: option.splits)

lemma sensor_ping_total:
  "\<not> isType ty ao \<or> cpu (tanks s tid) \<noteq> None \<Longrightarrow>
   \<exists>s'. sensor (resolvePing d) ty tid ao s = Some s'"
  by (auto simp: sensor_def resolvePing_def isType_def Let_def split: option.splits)

lemma fire_total: "valid_facing (facing (tanks s tid)) \<Longrightarrow> \<exists>s'. fire tid s = Some s'"
  by (auto simp: fire_def Let_def valid_facing_def split: option.splits)

lemma DIRS_rem: "valid_facing i \<Longrightarrow> 0 \<le> k \<Longrightarrow> valid_facing (js_rem (i + k) 4)"
  using js_rem_4 [of "i + k"] by (simp add: valid_facing_iff)

lemma moveIntent_total:
  assumes "valid_facing (facing (tanks s tid))"
  shows "\<exists>m. moveIntent tid a s = Some m"
proof -
  from assms DIRS_rem [OF assms, of 2]
  have "valid_facing (if dir a = Some ''BACKWARD'' then js_rem (facing (tanks s tid) + 2) 4
              else facing (tanks s tid))"
    by simp
  from valid_facing_DIRS [OF this] show ?thesis
    by (auto simp: moveIntent_def Let_def)
qed

lemma resolveAction_total:
  assumes "valid_facing (facing (tanks (fst si) tid))"
  shows "\<exists>si'. resolveAction tid ao si = Some si'"
proof (cases ao)
  case None
  then show ?thesis by (simp add: resolveAction_def)
next
  case (Some a)
  from fire_total [OF assms] obtain s' where f: "fire tid (fst si) = Some s'" by blast
  from moveIntent_total [OF assms] obtain m where m: "moveIntent tid a (fst si) = Some m" by blast
  show ?thesis by (simp add: resolveAction_def Some f m)
qed

lemma rotateTank_facing:
  assumes "valid_facing (facing (tanks s t))"
  shows "valid_facing (facing (tanks (rotateTank tid a s) t))"
  using assms DIRS_rem [OF assms, of 3] DIRS_rem [OF assms, of 1]
  by (cases "t = tid") (simp_all add: rotateTank_def Let_def)

lemma fire_facing: "fire tid s = Some s' \<Longrightarrow> facing (tanks s' t) = facing (tanks s t)"
  using fire_frame [of tid s s'] by (cases t) (simp_all add: keeps_tanks_def)

lemma resolveAction_facing:
  assumes "resolveAction tid ao si = Some si'" and "valid_facing (facing (tanks (fst si) t))"
  shows "valid_facing (facing (tanks (fst si') t))"
  using assms rotateTank_facing [OF assms(2), of tid]
  by (auto simp: resolveAction_def split: option.splits if_splits dest!: fire_facing [where t = t])

lemma resolveTurn_total:
  assumes "turn_ok s0"
  shows "\<exists>s'. resolveTurn d cfg s0 = Some s'"
proof -
  let ?bt = "beginTurn s0"
  let ?ub = "updateBullets cfg ?bt"
  let ?a1 = "pendingActions ?bt P1"
  let ?a2 = "pendingActions ?bt P2"
  have k0: "keeps_tanks s0 ?ub"
    using keeps_tanks_trans [OF beginTurn_keeps updateBullets_keeps] .
  have pa: "?a1 = pendingActions s0 P1" "?a2 = pendingActions s0 P2"
    by (simp_all add: beginTurn_fields)
  from assms have vf: "valid_facing (facing (tanks s0 P1))" "valid_facing (facing (tanks s0 P2))"
    by (simp_all add: turn_ok_def)
  from assms have c1: "\<not> isType ty ?a1 \<or> \<not> needs_cpu ?a1 \<or> cpu (tanks s0 P1) \<noteq> None" for ty
    by (auto simp: turn_ok_def pa split: if_splits)
  from assms have c2: "\<not> isType ty ?a2 \<or> \<not> needs_cpu ?a2 \<or> cpu (tanks s0 P2) \<noteq> None" for ty
    by (auto simp: turn_ok_def pa split: if_splits)
  have n1: "\<not> isType ''SCAN'' ?a1 \<or> cpu (tanks s0 P1) \<noteq> None"
           "\<not> isType ''PING'' ?a1 \<or> cpu (tanks s0 P1) \<noteq> None"
    using c1 [of "''SCAN''"] c1 [of "''PING''"] by (auto simp: needs_cpu_def)
  have n2: "\<not> isType ''SCAN'' ?a2 \<or> cpu (tanks s0 P2) \<noteq> None"
           "\<not> isType ''PING'' ?a2 \<or> cpu (tanks s0 P2) \<noteq> None"
    using c2 [of "''SCAN''"] c2 [of "''PING''"] by (auto simp: needs_cpu_def)
  have "valid_facing (facing (tanks ?ub P1))" using vf k0 by (simp add: keeps_tanks_def)
  moreover have "\<not> isType ''SCAN'' ?a1 \<or> cpu (tanks ?ub P1) \<noteq> None"
    using n1 k0 by (simp add: keeps_tanks_def)
  ultimately obtain sa where a: "sensor (resolveScan d) ''SCAN'' P1 ?a1 ?ub = Some sa"
    using sensor_scan_total by blast
  have ka: "keeps_tanks s0 sa"
    using keeps_tanks_trans [OF k0] sensor_scan_props [OF a] by blast
  have "valid_facing (facing (tanks sa P2))" using vf ka by (simp add: keeps_tanks_def)
  moreover have "\<not> isType ''SCAN'' ?a2 \<or> cpu (tanks sa P2) \<noteq> None"
    using n2 ka by (simp add: keeps_tanks_def)
  ultimately obtain sb where b: "sensor (resolveScan d) ''SCAN'' P2 ?a2 sa = Some sb"
    using sensor_scan_total by blast
  have kb: "keeps_tanks s0 sb"
    using keeps_tanks_trans [OF ka] sensor_scan_props [OF b] by blast
  have "\<not> isType ''PING'' ?a1 \<or> cpu (tanks sb P1) \<noteq> None"
    using n1 kb by (simp add: keeps_tanks_def)
  then obtain sc where c: "sensor (resolvePing d) ''PING'' P1 ?a1 sb = Some sc"
    using sensor_ping_total by blast
  have kc: "keeps_tanks s0 sc"
    using keeps_tanks_trans [OF kb] sensor_ping_props [OF c] by blast
  have "\<not> isType ''PING'' ?a2 \<or> cpu (tanks sc P2) \<noteq> None"
    using n2 kc by (simp add: keeps_tanks_def)
  then obtain sd where d: "sensor (resolvePing d) ''PING'' P2 ?a2 sc = Some sd"
    using sensor_ping_total by blast
  have kd: "keeps_tanks s0 sd"
    using keeps_tanks_trans [OF kc] sensor_ping_props [OF d] by blast
  have f1: "valid_facing (facing (tanks sd P1))" and f2: "valid_facing (facing (tanks sd P2))"
    using kd vf by (simp_all add: keeps_tanks_def)
  obtain si1 where e: "resolveAction P1 ?a1 (sd, (\<lambda>_. None)) = Some si1"
    using resolveAction_total [of "(sd, (\<lambda>_. None))" P1 ?a1] f1 by auto
  have "valid_facing (facing (tanks (fst si1) P2))"
    using resolveAction_facing [OF e, of P2] f2 by simp
  then obtain si2 where f: "resolveAction P2 ?a2 si1 = Some si2"
    using resolveAction_total [of si1 P2 ?a2] by auto
  obtain s1 where g: "applyMovements (fst si2) (snd si2) = Some s1"
    using applyMovements_total by blast
  show ?thesis
    by (simp add: resolveTurn_def Let_def a b c d e f g)
qed

section \<open>Game-over status through the operations\<close>

lemma gameOverCheck_verdict:
  "(isGameOver (gameOverCheck cfg s), winner (gameOverCheck cfg s)) =
     (if hp (tanks s P1) \<le> 0 \<and> hp (tanks s P2) \<le> 0 then (True, Some ''DRAW'')
      else if hp (tanks s P1) \<le> 0 then (True, Some ''P2'')
      else if hp (tanks s P2) \<le> 0 then (True, Some ''P1'')
      else if isGameOver s then (True, winner s)
      else if isType ''HALT'' (pendingActions s P1) \<and> isType ''HALT'' (pendingActions s P2)
      then (True, Some ''DRAW (STALEMATE)'')
      else if turnCount s \<ge> MAX_TURNS cfg then (True, Some ''DRAW (TURN LIMIT)'')
      else (False, winner s))"
  by (simp add: gameOverCheck_def turnLimitCheck_def stalemateCheck_def destroyedCheck_def Let_def)

lemma resolveTurn_verdict:
  assumes "resolveTurn d cfg s0 = Some s'"
  shows "(isGameOver s', winner s') = verdict cfg s0 (hp (tanks s' P1)) (hp (tanks s' P2)) \<and>
         pendingActions s' P1 = None \<and> pendingActions s' P2 = None \<and>
         turnCount s' = turnCount s0 + 1"
proof -
  from resolveTurn_stages [OF assms] obtain s1 where
    f: "frame (beginTurn s0) s1" and
    r: "s' = (gameOverCheck cfg s1)\<lparr>pendingActions := (pendingActions s1)(P1 := None, P2 := None)\<rparr>"
    by blast
  from f have e: "isGameOver s1 = isGameOver s0" "winner s1 = winner s0"
    "pendingActions s1 = pendingActions s0" "turnCount s1 = turnCount s0 + 1"
    by (simp_all add: frame_def beginTurn_fields)
  have "(isGameOver s', winner s') = (isGameOver (gameOverCheck cfg s1), winner (gameOverCheck cfg s1))"
    by (simp add: r)
  also have "\<dots> = verdict cfg s0 (hp (tanks s1 P1)) (hp (tanks s1 P2))"
    unfolding gameOverCheck_verdict verdict_def by (simp add: e)
  finally show ?thesis
    by (simp add: r gameOverCheck_fields e)
qed

lemma resolveTurn_status_inv:
  assumes "resolveTurn d cfg s0 = Some s'" and "status_inv s0"
  shows "status_inv s'"
proof -
  from resolveTurn_stages [OF assms(1)] obtain s1 where
    f: "frame (beginTurn s0) s1" and
    r: "s' = (gameOverCheck cfg s1)\<lparr>pendingActions := (pendingActions s1)(P1 := None, P2 := None)\<rparr>"
    by blast
  from f assms(2) have "status_inv s1"
    by (simp add: frame_def beginTurn_fields status_inv_def)
  from gameOverCheck_status_inv [OF this, of cfg] show ?thesis
    by (simp add: r status_inv_def)
qed

lemma recordResult_fields:
  "grid (recordResult tid r s) = grid s"
  "bullets (recordResult tid r s) = bullets s"
  "isGameOver (recordResult tid r s) = isGameOver s"
  "winner (recordResult tid r s) = winner s"
  "turnCount (recordResult tid r s) = turnCount s"
  "events (recordResult tid r s) = events s"
  "hp (tanks (recordResult tid r s) t) = hp (tanks s t)"
  "facing (tanks (recordResult tid r s) t) = facing (tanks s t)"
  "tank_x (tanks (recordResult tid r s) t) = tank_x (tanks s t)"
  "tank_y (tanks (recordResult tid r s) t) = tank_y (tanks s t)"
  "cpu (tanks (recordResult tid r s) t) = cpu (tanks s t)"
  by (simp_all add: recordResult_def split: option.splits)

lemma stepCPU_fields:
  assumes "stepCPU d tid s = Some (r, s')"
  shows "grid s' = grid s" "bullets s' = bullets s" "isGameOver s' = isGameOver s"
    "winner s' = winner s" "turnCount s' = turnCount s" "events s' = events s"
    "hp (tanks s' t) = hp (tanks s t)" "facing (tanks s' t) = facing (tanks s t)"
    "tank_x (tanks s' t) = tank_x (tanks s t)" "tank_y (tanks s' t) = tank_y (tanks s t)"
    "(cpu (tanks s' t) = None) = (cpu (tanks s t) = None)"
  using assms
  by (auto simp: stepCPU_def Let_def recordResult_fields split: option.splits if_splits)

lemma resetTurnState_fields:
  "isGameOver (resetTurnState cfg s) = False"
  "winner (resetTurnState cfg s) = None"
  "bullets (resetTurnState cfg s) = []"
  "events (resetTurnState cfg s) = []"
  "log (resetTurnState cfg s) = [''Turn reset.'']"
  "turnCount (resetTurnState cfg s) = 0"
  "pendingActions (resetTurnState cfg s) = (\<lambda>_. None)"
  "turnOps (resetTurnState cfg s) = (\<lambda>_. 0)"
  "grid (resetTurnState cfg s) = grid s"
  by (simp_all add: resetTurnState_def Let_def)

lemma loadCode_status:
  "winner (snd (loadCode d cfg a b s)) = (if success (fst (loadCode d cfg a b s)) then None else winner s)"
  "isGameOver (snd (loadCode d cfg a b s)) = (if success (fst (loadCode d cfg a b s)) then False else isGameOver s)"
  "bullets (snd (loadCode d cfg a b s)) = (if success (fst (loadCode d cfg a b s)) then [] else bullets s)"
  by (simp_all add: loadCode_def Let_def load_failed_def resetTurnState_fields split: option.splits)

lemma new_BattleManager_fields:
  "isGameOver (new_BattleManager cfg) = False"
  "winner (new_BattleManager cfg) = None"
  "bullets (new_BattleManager cfg) = []"
  by (simp_all add: new_BattleManager_def setupArena_eq)

section \<open>Turns without bullets and without FIRE\<close>

lemma resolveScan_hp: "resolveScan d tid a s = Some s' \<Longrightarrow> hp (tanks s' t) = hp (tanks s t)"
  by (auto simp: resolveScan_def Let_def split: option.splits)

lemma resolvePing_hp: "resolvePing d tid a s = Some s' \<Longrightarrow> hp (tanks s' t) = hp (tanks s t)"
  by (auto simp: resolvePing_def Let_def split: option.splits if_splits)

lemma sensor_scan_hp:
  "sensor (resolveScan d) ty tid ao s = Some s' \<Longrightarrow> hp (tanks s' t) = hp (tanks s t)"
  by (auto simp: sensor_def split: option.splits if_splits dest: resolveScan_hp)

lemma sensor_ping_hp:
  "sensor (resolvePing d) ty tid ao s = Some s' \<Longrightarrow> hp (tanks s' t) = hp (tanks s t)"
  by (auto simp: sensor_def split: option.splits if_splits dest: resolvePing_hp)

lemma resolveAction_quiet:
  "resolveAction tid ao si = Some si' \<Longrightarrow> \<not> isType ''FIRE'' ao \<Longrightarrow>
     hp (tanks (fst si') t) = hp (tanks (fst si) t) \<and> bullets (fst si') = bullets (fst si)"
  using rotateTank_props [of "fst si" tid _ t]
  by (auto simp: resolveAction_def isType_def split: option.splits if_splits)

lemma updateBullets_nil: "bullets s = [] \<Longrightarrow> updateBullets cfg s = s"
  by (simp add: updateBullets_def)

lemma resolveTurn_quiet:
  assumes "resolveTurn d cfg s0 = Some s'" and "bullets s0 = []"
    and "\<not> isType ''FIRE'' (pendingActions s0 P1)" and "\<not> isType ''FIRE'' (pendingActions s0 P2)"
  shows "hp (tanks s' t) = hp (tanks s0 t) \<and> bullets s' = []"
proof -
  let ?bt = "beginTurn s0"
  let ?a1 = "pendingActions ?bt P1"
  let ?a2 = "pendingActions ?bt P2"
  have ub: "updateBullets cfg ?bt = ?bt"
    by (rule updateBullets_nil) (simp add: beginTurn_fields assms(2))
  from assms(1) obtain sa sb sc sd si1 si2 s1 where
    a: "sensor (resolveScan d) ''SCAN'' P1 ?a1 ?bt = Some sa" and
    b: "sensor (resolveScan d) ''SCAN'' P2 ?a2 sa = Some sb" and
    c: "sensor (resolvePing d) ''PING'' P1 ?a1 sb = Some sc" and
    d: "sensor (resolvePing d) ''PING'' P2 ?a2 sc = Some sd" and
    e: "resolveAction P1 ?a1 (sd, (\<lambda>_. None)) = Some si1" and
    f: "resolveAction P2 ?a2 si1 = Some si2" and
    g: "applyMovements (fst si2) (snd si2) = Some s1" and
    h: "s' = (gameOverCheck cfg s1)\<lparr>pendingActions := (pendingActions s1)(P1 := None, P2 := None)\<rparr>"
    by (auto simp: resolveTurn_def Let_def ub split: Option.bind_splits)
  have nf: "\<not> isType ''FIRE'' ?a1" "\<not> isType ''FIRE'' ?a2"
    using assms(3,4) by (simp_all add: beginTurn_fields)
  have "hp (tanks s1 t) = hp (tanks s0 t)"
    using sensor_scan_hp [OF a, of t] sensor_scan_hp [OF b, of t] sensor_ping_hp [OF c, of t]
      sensor_ping_hp [OF d, of t] resolveAction_quiet [OF e nf(1), of t]
      resolveAction_quiet [OF f nf(2), of t] applyMovements_props [OF g, of t]
    by (simp add: beginTurn_fields)
  moreover have "bullets s1 = []"
    using sensor_scan_props [OF a] sensor_scan_props [OF b] sensor_ping_props [OF c]
      sensor_ping_props [OF d] resolveAction_quiet [OF e nf(1), of t]
      resolveAction_quiet [OF f nf(2), of t] applyMovements_props [OF g, of t]
    by (simp add: beginTurn_fields assms(2))
  ultimately show ?thesis by (simp add: h gameOverCheck_fields)
qed

section \<open>The winner is set exactly when the game is over (C9)\<close>

lemma turn_ok_test_arena: "turn_ok test_arena"
  by (simp add: turn_ok_def test_arena_fields new_tank_def valid_facing_iff needs_cpu_def isType_def)

lemma turn_ok_halted: "turn_ok halted_state"
  by (simp add: turn_ok_def halted_state_def test_arena_fields new_tank_def valid_facing_iff
        needs_cpu_def isType_def plain_action_def)

text \<open>
  C9. The winner is non-null if and only if the game is over, for the engine as the
  constructor leaves it and after \<^verbatim>\<open>resetTurnState\<close>; and \<^verbatim>\<open>setupArena\<close>,
  \<^verbatim>\<open>loadCode\<close> (failed or not), \<^verbatim>\<open>stepCPU\<close> and \<^verbatim>\<open>resolveTurn\<close> keep it.
\<close>

theorem winner_iff_game_over:
  "status_inv (new_BattleManager cfg :: 'c manager) \<and>
   status_inv (resetTurnState cfg s) \<and>
   (status_inv s \<longrightarrow>
      status_inv (setupArena level s) \<and>
      status_inv (snd (loadCode d cfg p1Code p2Code s)) \<and>
      (\<forall>r s'. stepCPU d tid s = Some (r, s') \<longrightarrow> status_inv s') \<and>
      (\<forall>s'. resolveTurn d cfg s = Some s' \<longrightarrow> status_inv s'))"
proof -
  have "status_inv (new_BattleManager cfg :: 'c manager)"
    by (simp add: status_inv_def new_BattleManager_fields)
  moreover have "status_inv (resetTurnState cfg s)"
    by (simp add: status_inv_def resetTurnState_fields)
  moreover have "status_inv (setupArena level s)" if "status_inv s"
    using that by (simp add: status_inv_def setupArena_eq)
  moreover have "status_inv (snd (loadCode d cfg p1Code p2Code s))" if "status_inv s"
    using that by (simp add: status_inv_def loadCode_status)
  moreover have "status_inv s'" if "status_inv s" "stepCPU d tid s = Some (r, s')" for r s'
    using that stepCPU_fields(3,4) [OF that(2)] by (simp add: status_inv_def)
  moreover have "status_inv s'" if "status_inv s" "resolveTurn d cfg s = Some s'" for s'
    using resolveTurn_status_inv [OF that(2) that(1)] .
  ultimately show ?thesis by blast
qed

theorem winner_iff_game_over_witness:
  "status_inv test_arena \<and>
   status_inv (setupArena 3 test_arena) \<and>
   status_inv (snd (loadCode test_deps (inlined_config 1000) ''FIRE'' ''BAD'' test_arena)) \<and>
   (\<exists>r s'. stepCPU test_deps P1 test_arena = Some (r, s') \<and> status_inv s') \<and>
   (\<exists>s'. resolveTurn test_deps (inlined_config 1000) halted_state = Some s' \<and>
         isGameOver s' \<and> winner s' \<noteq> None)"
proof -
  have i: "status_inv test_arena"
    by (simp add: status_inv_def test_arena_fields)
  have h: "status_inv halted_state"
    by (simp add: status_inv_def halted_state_def test_arena_fields)
  obtain s' where r: "resolveTurn test_deps (inlined_config 1000) halted_state = Some s'"
    using resolveTurn_total [OF turn_ok_halted] by blast
  have q: "hp (tanks s' t) = 3" for t
    using resolveTurn_quiet [OF r, of t]
    by (cases t) (simp_all add: halted_state_def test_arena_fields isType_def plain_action_def new_tank_def)
  have go: "isGameOver s'"
    using resolveTurn_verdict [OF r]
    by (simp add: verdict_def q halted_state_def test_arena_fields isType_def plain_action_def)
  have st: "stepCPU test_deps P1 test_arena = Some (None, test_arena)"
    by (simp add: stepCPU_def test_arena_fields new_tank_def)
  note W = winner_iff_game_over [of "inlined_config 1000" test_arena 3 test_deps "''FIRE''" "''BAD''" P1]
  from W i have a: "status_inv (setupArena 3 test_arena)"
    and b: "status_inv (snd (loadCode test_deps (inlined_config 1000) ''FIRE'' ''BAD'' test_arena))"
    by blast+
  from W i st have c: "\<exists>r s'. stepCPU test_deps P1 test_arena = Some (r, s') \<and> status_inv s'"
    by blast
  note V = winner_iff_game_over [of "inlined_config 1000" halted_state 3 test_deps "''FIRE''" "''BAD''" P1]
  from V h r have "status_inv s'" by blast
  with go have "winner s' \<noteq> None" by (simp add: status_inv_def)
  with r go have e: "\<exists>s'. resolveTurn test_deps (inlined_config 1000) halted_state = Some s' \<and>
         isGameOver s' \<and> winner s' \<noteq> None" by blast
  from i a b c e show ?thesis by blast
qed

section \<open>FIRE (C3)\<close>

lemma fire_result:
  assumes "DIRS (facing (tanks s tid)) = Some d"
  shows "\<exists>s'. fire tid s = Some s' \<and>
     (let sx = tank_x (tanks s tid) + fst d; sy = tank_y (tanks s tid) + snd d; en = enemy_of tid
      in if hasActiveBullet tid s
         then bullets s' = bullets s \<and> events s' = events s \<and>
              lastFeedback (tanks s' tid) = Some ''RELOADING'' \<and> hp (tanks s' en) = hp (tanks s en)
         else if \<not> isValid (grid s) sx sy
         then bullets s' = bullets s \<and>
              events s' = events s @
                [(explosion_data sx sy tid None)\<lparr>ev_id := eventIdCounter s, ev_type := ''EXPLOSION''\<rparr>] \<and>
              lastFeedback (tanks s' tid) = Some ''BLOCKED'' \<and> hp (tanks s' en) = hp (tanks s en)
         else if hp (tanks s en) > 0 \<and> tank_x (tanks s en) = sx \<and> tank_y (tanks s en) = sy
         then bullets s' = bullets s \<and> hp (tanks s' en) = hp (tanks s en) - 1 \<and>
              events s' = events s @
                [(explosion_data sx sy tid (Some en))\<lparr>ev_id := eventIdCounter s, ev_type := ''EXPLOSION''\<rparr>]
         else bullets s' = bullets s @
                [\<lparr>bullet_id = eventIdCounter s, bullet_x = sx, bullet_y = sy, dx = fst d,
                  dy = snd d, owner = tid, dist = 0\<rparr>] \<and>
              events s' = events s \<and> hp (tanks s' en) = hp (tanks s en))"
  using assms
  by (cases tid) (simp_all add: fire_def Let_def spawnBullet_def enemy_of_def)

lemma resolveAction_fire:
  "atype a = ''FIRE'' \<Longrightarrow>
   resolveAction tid (Some a) (s, ints) = (case fire tid s of None \<Rightarrow> None | Some s' \<Rightarrow> Some (s', ints))"
  by (simp add: resolveAction_def split: option.splits)

lemma fire_throws:
  "\<not> hasActiveBullet tid s \<Longrightarrow> DIRS (facing (tanks s tid)) = None \<Longrightarrow> fire tid s = None"
  by (simp add: fire_def)

lemma fire_reloads:
  "hasActiveBullet tid s \<Longrightarrow>
   \<exists>s'. fire tid s = Some s' \<and> bullets s' = bullets s \<and> events s' = events s \<and>
        lastFeedback (tanks s' tid) = Some ''RELOADING'' \<and>
        hp (tanks s' (enemy_of tid)) = hp (tanks s (enemy_of tid))"
  by (simp add: fire_def)

text \<open>
  C3, as amended. When a FIRE action is resolved the intents are left alone. If the tank
  has a live bullet, no bullet and no event is added and its feedback is \<open>RELOADING\<close>.
  Otherwise the cell ahead is looked up along the facing (a facing that does not index
  \<^verbatim>\<open>DIRS\<close> makes the call throw): if the cell is a wall or off the grid, one EXPLOSION
  event at that cell is added and the feedback is \<open>BLOCKED\<close>; if the enemy is alive (HP
  \<open>> 0\<close>) and stands in the cell, its HP drops by one and an EXPLOSION event naming the
  hit tank is added; in every other case, a destroyed enemy in the cell included, a new
  bullet with travelled distance 0 is spawned in the cell, flying along the facing, and
  nobody is damaged.
\<close>

theorem fire_resolution:
  assumes "atype a = ''FIRE''"
  shows "if hasActiveBullet tid s
     then \<exists>s'. resolveAction tid (Some a) (s, ints) = Some (s', ints) \<and>
               bullets s' = bullets s \<and> events s' = events s \<and>
               lastFeedback (tanks s' tid) = Some ''RELOADING'' \<and>
               hp (tanks s' (enemy_of tid)) = hp (tanks s (enemy_of tid))
     else
       (case DIRS (facing (tanks s tid)) of
          None \<Rightarrow> resolveAction tid (Some a) (s, ints) = None
        | Some d \<Rightarrow>
            (\<exists>s'. resolveAction tid (Some a) (s, ints) = Some (s', ints) \<and>
               (let sx = tank_x (tanks s tid) + fst d; sy = tank_y (tanks s tid) + snd d;
                    en = enemy_of tid
                in if \<not> isValid (grid s) sx sy
                   then bullets s' = bullets s \<and>
                        events s' = events s @
                          [(explosion_data sx sy tid None)
                             \<lparr>ev_id := eventIdCounter s, ev_type := ''EXPLOSION''\<rparr>] \<and>
                        lastFeedback (tanks s' tid) = Some ''BLOCKED'' \<and>
                        hp (tanks s' en) = hp (tanks s en)
                   else if hp (tanks s en) > 0 \<and> tank_x (tanks s en) = sx \<and> tank_y (tanks s en) = sy
                   then bullets s' = bullets s \<and> hp (tanks s' en) = hp (tanks s en) - 1 \<and>
                        events s' = events s @
                          [(explosion_data sx sy tid (Some en))
                             \<lparr>ev_id := eventIdCounter s, ev_type := ''EXPLOSION''\<rparr>]
                   else bullets s' = bullets s @
                          [\<lparr>bullet_id = eventIdCounter s, bullet_x = sx, bullet_y = sy,
                            dx = fst d, dy = snd d, owner = tid, dist = 0\<rparr>] \<and>
                        events s' = events s \<and> hp (tanks s' en) = hp (tanks s en))))"
proof (cases "hasActiveBullet tid s")
  case True
  from fire_reloads [OF True] show ?thesis
    by (auto simp: True resolveAction_fire [OF assms])
next
  case False
  show ?thesis
  proof (cases "DIRS (facing (tanks s tid))")
    case None
    with False fire_throws [OF False None] show ?thesis
      by (simp add: resolveAction_fire [OF assms])
  next
    case (Some d)
    from fire_result [OF Some] obtain s' where f: "fire tid s = Some s'" by blast
    with fire_result [OF Some] False Some show ?thesis
      by (simp add: resolveAction_fire [OF assms] Let_def)
  qed
qed

text \<open>P1 fires on the fresh arena: the bullet appears at (1, 4), flying east.\<close>

theorem fire_resolution_witness:
  "atype (plain_action ''FIRE'') = ''FIRE'' \<and> DIRS (facing (tanks test_arena P1)) = Some (1, 0) \<and>
   (\<exists>s'. resolveAction P1 (Some (plain_action ''FIRE'')) (test_arena, (\<lambda>_. None)) = Some (s', (\<lambda>_. None)) \<and>
         bullets s' = [\<lparr>bullet_id = 0, bullet_x = 1, bullet_y = 4, dx = 1, dy = 0,
                        owner = P1, dist = 0\<rparr>] \<and>
         events s' = [] \<and> hp (tanks s' P2) = 3)"
proof -
  have a: "atype (plain_action ''FIRE'') = ''FIRE''" by (simp add: plain_action_def)
  have d: "DIRS (facing (tanks test_arena P1)) = Some (1, 0)"
    by (simp add: test_arena_fields new_tank_def DIRS_def)
  have n: "\<not> hasActiveBullet P1 test_arena"
    by (simp add: hasActiveBullet_def test_arena_fields)
  from fire_resolution [OF a, of P1 test_arena "\<lambda>_. None"] n d a show ?thesis
    by (simp add: Let_def test_arena_fields new_tank_def isValid_def enemy_of_def)
qed

text \<open>
  C3 as stated fails when the enemy in the cell ahead is already destroyed: it takes no
  damage and no event is emitted; a bullet is spawned in its cell instead.
\<close>

theorem fire_at_destroyed_enemy:
  "hp (tanks dead_enemy_state P2) = 0 \<and>
   tank_x (tanks dead_enemy_state P2) = tank_x (tanks dead_enemy_state P1) + 1 \<and>
   tank_y (tanks dead_enemy_state P2) = tank_y (tanks dead_enemy_state P1) \<and>
   facing (tanks dead_enemy_state P1) = 0 \<and>
   (case resolveAction P1 (Some (plain_action ''FIRE'')) (dead_enemy_state, (\<lambda>_. None)) of
      None \<Rightarrow> False
    | Some si \<Rightarrow> hp (tanks (fst si) P2) = 0 \<and> events (fst si) = [] \<and>
                 bullets (fst si) = [\<lparr>bullet_id = 0, bullet_x = 1, bullet_y = 4, dx = 1, dy = 0,
                                      owner = P1, dist = 0\<rparr>])"
proof -
  have t: "tanks dead_enemy_state P1 = tanks test_arena P1"
    "tanks dead_enemy_state P2 = (tanks test_arena P2)\<lparr>tank_x := 1, tank_y := 4, hp := 0\<rparr>"
    "grid dead_enemy_state = grid test_arena" "bullets dead_enemy_state = []"
    "events dead_enemy_state = []" "eventIdCounter dead_enemy_state = 0"
    by (simp_all add: dead_enemy_state_def test_arena_fields)
  have d: "DIRS (facing (tanks dead_enemy_state P1)) = Some (1, 0)"
    by (simp add: t test_arena_fields new_tank_def DIRS_def)
  from fire_result [OF d] obtain s' where f: "fire P1 dead_enemy_state = Some s'" by blast
  from fire_result [OF d] f
  have "hp (tanks s' P2) = 0 \<and> events s' = [] \<and>
        bullets s' = [\<lparr>bullet_id = 0, bullet_x = 1, bullet_y = 4, dx = 1, dy = 0, owner = P1, dist = 0\<rparr>]"
    by (simp add: Let_def hasActiveBullet_def t test_arena_fields new_tank_def isValid_def enemy_of_def)
  then show ?thesis
    by (simp add: resolveAction_fire plain_action_def f t test_arena_fields new_tank_def)
qed

section \<open>stepCPU (C8)\<close>

lemma stepCPU_run:
  assumes "cpu (tanks s tid) = Some c" and "0 < hp (tanks s tid)"
    and "c1 = updateTankState d c (tank_x (tanks s tid)) (tank_y (tanks s tid))
                (facing (tanks s tid)) (hp (tanks s tid)) (ammoArg tid s)"
    and "fetchIR (program d c1) (map_of (registers d c1) ''PC'') = Some ir"
  shows "\<exists>s'. stepCPU d tid s = Some (fst (step d c1), s') \<and>
              cpu (tanks s' tid) = Some (snd (step d c1)) \<and>
              debugIR (tanks s' tid) = Some ir \<and>
              pendingActions s' tid =
                (case fst (step d c1) of
                   None \<Rightarrow> Some (plain_action ''HALT'')
                 | Some r \<Rightarrow> if atype r = ''CPU_OP'' then pendingActions s tid else Some r)"
  using assms
  by (auto simp: stepCPU_def Let_def recordResult_def split: option.splits)

lemma stepCPU_throws:
  assumes "cpu (tanks s tid) = Some c" and "0 < hp (tanks s tid)"
    and "c1 = updateTankState d c (tank_x (tanks s tid)) (tank_y (tanks s tid))
                (facing (tanks s tid)) (hp (tanks s tid)) (ammoArg tid s)"
    and "fetchIR (program d c1) (map_of (registers d c1) ''PC'') = None"
  shows "stepCPU d tid s = None"
  using assms by (simp add: stepCPU_def Let_def)

text \<open>
  C8, as amended. On a micro-step of a tank that has a CPU and HP \<open>> 0\<close>,
  \<^verbatim>\<open>updateTankState\<close> is called first, with the tank's x, y, facing and hp and with
  \<^verbatim>\<open>ammoAvailable\<close> 0 when a bullet owned by the tank is live and 1 when none is; the
  debug read of the instruction is made on the CPU so updated (and throws for a negative
  program counter, before any step); \<^verbatim>\<open>step()\<close> then runs on that CPU, its result is
  what \<^verbatim>\<open>stepCPU\<close> returns, and the CPU it leaves is the tank's CPU afterwards.
\<close>

theorem stepCPU_mirrors_state:
  assumes "cpu (tanks s tid) = Some c" and "0 < hp (tanks s tid)"
    and "c1 = updateTankState d c (tank_x (tanks s tid)) (tank_y (tanks s tid))
                (facing (tanks s tid)) (hp (tanks s tid))
                (if list_ex (\<lambda>b. owner b = tid) (bullets s) then 0 else 1)"
  shows "case fetchIR (program d c1) (map_of (registers d c1) ''PC'') of
           None \<Rightarrow> stepCPU d tid s = None
         | Some ir \<Rightarrow>
             (\<exists>s'. stepCPU d tid s = Some (fst (step d c1), s') \<and>
                   cpu (tanks s' tid) = Some (snd (step d c1)) \<and>
                   debugIR (tanks s' tid) = Some ir)"
proof -
  from assms(3) have c1: "c1 = updateTankState d c (tank_x (tanks s tid)) (tank_y (tanks s tid))
                (facing (tanks s tid)) (hp (tanks s tid)) (ammoArg tid s)"
    by (simp add: ammoArg_def hasActiveBullet_def)
  show ?thesis
  proof (cases "fetchIR (program d c1) (map_of (registers d c1) ''PC'')")
    case None
    with stepCPU_throws [OF assms(1,2) c1 None] show ?thesis by simp
  next
    case (Some ir)
    with stepCPU_run [OF assms(1,2) c1 Some] show ?thesis by auto
  qed
qed

lemma armed_fields:
  "tanks armed_state P1 = (tanks test_arena P1)\<lparr>cpu := Some \<lparr>calls = [], script = [plain_action ''FIRE'']\<rparr>\<rparr>"
  "bullets armed_state = []"
  by (simp_all add: armed_state_def test_arena_fields)

lemma reloading_fields:
  "tanks reloading_state P1 = (tanks test_arena P1)\<lparr>cpu := Some \<lparr>calls = [], script = [plain_action ''FIRE'']\<rparr>\<rparr>"
  "bullets reloading_state = [\<lparr>bullet_id = 0, bullet_x = 3, bullet_y = 4, dx = 1, dy = 0,
                               owner = P1, dist = 2\<rparr>]"
  by (simp_all add: reloading_state_def armed_state_def test_arena_fields)

text \<open>With no bullet in flight the CPU of P1 sees the calls (0, 4, 0, 3, 1) and then \<open>step\<close>.\<close>

theorem stepCPU_mirrors_state_witness:
  "\<exists>s'. stepCPU test_deps P1 armed_state = Some (Some (plain_action ''FIRE''), s') \<and>
        cpu (tanks s' P1) = Some \<lparr>calls = [UpdateTankState 0 4 0 3 1, Step], script = []\<rparr>"
proof -
  let ?c = "\<lparr>calls = [], script = [plain_action ''FIRE'']\<rparr>"
  let ?c1 = "\<lparr>calls = [UpdateTankState 0 4 0 3 1], script = [plain_action ''FIRE'']\<rparr>"
  have 1: "cpu (tanks armed_state P1) = Some ?c" by (simp add: armed_fields)
  have 2: "0 < hp (tanks armed_state P1)" by (simp add: armed_fields test_arena_fields new_tank_def)
  have 3: "?c1 = updateTankState test_deps ?c (tank_x (tanks armed_state P1))
                (tank_y (tanks armed_state P1)) (facing (tanks armed_state P1))
                (hp (tanks armed_state P1))
                (if list_ex (\<lambda>b. owner b = P1) (bullets armed_state) then 0 else 1)"
    by (simp add: armed_fields test_arena_fields new_tank_def test_deps_def)
  have 4: "fetchIR (program test_deps ?c1) (map_of (registers test_deps ?c1) ''PC'') = Some ''HALT''"
    by (simp add: fetchIR_def test_deps_def)
  from stepCPU_mirrors_state [OF 1 2 3] 4 show ?thesis
    by (auto simp: test_deps_def)
qed

text \<open>
  C8 as stated fails: while a bullet owned by P1 is live, the value handed to
  \<^verbatim>\<open>updateTankState\<close> as \<^verbatim>\<open>ammoAvailable\<close> is 0, not 1.
\<close>

theorem stepCPU_ammo_zero_while_bullet_live:
  "hasActiveBullet P1 reloading_state \<and>
   (case stepCPU test_deps P1 reloading_state of
      None \<Rightarrow> False
    | Some rs \<Rightarrow> map_option calls (cpu (tanks (snd rs) P1)) =
                   Some [UpdateTankState 0 4 0 3 0, Step])"
proof -
  let ?c = "\<lparr>calls = [], script = [plain_action ''FIRE'']\<rparr>"
  let ?c1 = "\<lparr>calls = [UpdateTankState 0 4 0 3 0], script = [plain_action ''FIRE'']\<rparr>"
  have h: "hasActiveBullet P1 reloading_state"
    by (simp add: hasActiveBullet_def reloading_fields)
  have 1: "cpu (tanks reloading_state P1) = Some ?c" by (simp add: reloading_fields)
  have 2: "0 < hp (tanks reloading_state P1)"
    by (simp add: reloading_fields test_arena_fields new_tank_def)
  have 3: "?c1 = updateTankState test_deps ?c (tank_x (tanks reloading_state P1))
                (tank_y (tanks reloading_state P1)) (facing (tanks reloading_state P1))
                (hp (tanks reloading_state P1)) (ammoArg P1 reloading_state)"
    by (simp add: reloading_fields test_arena_fields new_tank_def test_deps_def ammoArg_def
          hasActiveBullet_def)
  have 4: "fetchIR (program test_deps ?c1) (map_of (registers test_deps ?c1) ''PC'') = Some ''HALT''"
    by (simp add: fetchIR_def test_deps_def)
  from stepCPU_run [OF 1 2 3 4] h show ?thesis
    by (auto simp: test_deps_def)
qed

section \<open>loadCode (C6)\<close>

lemma loadCode_first_fails:
  "error_message (parse d (tokenize d a)) = Some m \<Longrightarrow>
   loadCode d cfg a b s = (load_failed (''P1 Error: '' @ m), s)"
  by (simp add: loadCode_def Let_def)

lemma loadCode_second_fails:
  "error_message (parse d (tokenize d a)) = None \<Longrightarrow>
   error_message (parse d (tokenize d b)) = Some m \<Longrightarrow>
   loadCode d cfg a b s =
     (load_failed (''P2 Error: '' @ m),
      upd_tank P1 (\<lambda>t. t\<lparr>cpu := Some (new_CPU d (pr_program (parse d (tokenize d a)))
                                           (pr_labels (parse d (tokenize d a))))\<rparr>) s)"
  by (simp add: loadCode_def Let_def)

lemma loadCode_succeeds:
  "error_message (parse d (tokenize d a)) = None \<Longrightarrow>
   error_message (parse d (tokenize d b)) = None \<Longrightarrow>
   loadCode d cfg a b s =
     (\<lparr>success = True, lr_error = None, p1Program = Some (pr_program (parse d (tokenize d a))),
       p2Program = Some (pr_program (parse d (tokenize d b)))\<rparr>,
      resetTurnState cfg
        ((upd_tank P2 (\<lambda>t. t\<lparr>cpu := Some (new_CPU d (pr_program (parse d (tokenize d b)))
                                           (pr_labels (parse d (tokenize d b))))\<rparr>)
         (upd_tank P1 (\<lambda>t. t\<lparr>cpu := Some (new_CPU d (pr_program (parse d (tokenize d a)))
                                           (pr_labels (parse d (tokenize d a))))\<rparr>) s))
           \<lparr>log := log s @ [''Simulation Started.'']\<rparr>))"
  by (simp add: loadCode_def Let_def upd_tank_def)

lemma test_parse:
  "error_message (parse test_deps (tokenize test_deps ''BAD'')) = Some ''line 1: unknown opcode''"
  "error_message (parse test_deps (tokenize test_deps ''FIRE'')) = None"
  "error_message (parse test_deps (tokenize test_deps ''MOVE'')) = None"
  "error_message (parse test_deps (tokenize test_deps ''ROTATE'')) = None"
  by (simp_all add: test_deps_def error_message_def)

lemma loaded_state_cpus:
  "cpu (tanks loaded_state P1) = Some \<lparr>calls = [], script = [plain_action ''MOVE'']\<rparr>"
  "cpu (tanks loaded_state P2) = Some \<lparr>calls = [], script = [plain_action ''ROTATE'']\<rparr>"
  by (simp_all add: loaded_state_def loadCode_succeeds test_parse resetTurnState_def Let_def)
     (simp_all add: test_deps_def)

text \<open>
  C6 at a failing input. Both tanks hold a loaded program (MOVE for P1, ROTATE for P2);
  \<^verbatim>\<open>loadCode\<close> is then called with a good first source and a second source the parser
  rejects. The call reports failure, and yet P1 now holds the CPU of the new program while
  P2 still holds its old one.
\<close>

theorem loadCode_half_installed:
  "success (fst (loadCode test_deps (inlined_config 1000) ''FIRE'' ''BAD'' loaded_state)) = False \<and>
   map_option script (cpu (tanks loaded_state P1)) = Some [plain_action ''MOVE''] \<and>
   map_option script
     (cpu (tanks (snd (loadCode test_deps (inlined_config 1000) ''FIRE'' ''BAD'' loaded_state)) P1)) =
     Some [plain_action ''FIRE''] \<and>
   map_option script
     (cpu (tanks (snd (loadCode test_deps (inlined_config 1000) ''FIRE'' ''BAD'' loaded_state)) P2)) =
     Some [plain_action ''ROTATE'']"
  by (simp add: loadCode_second_fails [OF test_parse(2) test_parse(1)] load_failed_def
        loaded_state_cpus)
     (simp add: test_deps_def)

section \<open>getState (C7)\<close>

lemma getState_fields:
  "gs_tanks (getState s) = tanks s \<and> gs_bullets (getState s) = bullets s \<and>
   gs_log (getState s) = log s \<and> gs_events (getState s) = events s \<and>
   gs_gameOver (getState s) = isGameOver s \<and> gs_winner (getState s) = winner s \<and>
   gs_turnCount (getState s) = turnCount s"
  by (simp add: getState_def)

text \<open>Changing the snapshot's own array leaves the engine's array as it was.\<close>

lemma snapshot_push_is_private:
  "snap_bullets (push_snapshot_bullet r (getState_arrays e)) = bullets_arr e @ [r] \<and>
   read_bullets h (bullets_arr e) = read_bullets h (snap_bullets (getState_arrays e))"
  by (simp add: push_snapshot_bullet_def getState_arrays_def)

text \<open>
  C7 at a failing input. The engine holds one bullet and one event. The caller takes a
  snapshot and assigns to a field of the bullet and of the event it finds there; the
  engine's own arrays then show the changed bullet and the changed event.
\<close>

theorem snapshot_shares_bullets_and_events:
  "read_bullets heap0 (bullets_arr engine0) = [Some flying_bullet] \<and>
   read_events heap0 (events_arr engine0) = [Some wall_event] \<and>
   (case assign_bullet_x (snap_bullets (getState_arrays engine0)) 0 99 heap0 of
      None \<Rightarrow> False
    | Some h1 \<Rightarrow>
        read_bullets h1 (bullets_arr engine0) = [Some (flying_bullet\<lparr>bullet_x := 99\<rparr>)] \<and>
        (case assign_event_hitTank (snap_events (getState_arrays engine0)) 0 (Some P1) h1 of
           None \<Rightarrow> False
         | Some h2 \<Rightarrow>
             read_events h2 (events_arr engine0) = [Some (wall_event\<lparr>ev_hitTank := Some P1\<rparr>)]))"
  by (simp add: read_bullets_def read_events_def assign_bullet_x_def assign_event_hitTank_def
        getState_arrays_def heap0_def engine0_def)

section \<open>At most one live bullet per owner (C5)\<close>

lemma filter_owner_distinct:
  "distinct (map owner bs) \<longleftrightarrow> (\<forall>t. length (filter (\<lambda>b. owner b = t) bs) \<le> 1)"
proof (induction bs)
  case Nil
  then show ?case by simp
next
  case (Cons b bs)
  let ?n = "\<lambda>t. length (filter (\<lambda>c. owner c = t) bs)"
  have "owner b \<in> owner ` set bs \<longleftrightarrow> (\<exists>x\<in>set bs. owner x = owner b)"
    by (metis image_iff)
  then have e: "owner b \<notin> owner ` set bs \<longleftrightarrow> ?n (owner b) = 0"
    by (simp add: filter_empty_conv)
  have "(\<forall>t. length (filter (\<lambda>c. owner c = t) (b # bs)) \<le> 1) \<longleftrightarrow>
        (\<forall>t. (if owner b = t then Suc (?n t) else ?n t) \<le> 1)"
    by (simp cong: if_cong)
  also have "\<dots> \<longleftrightarrow> ?n (owner b) = 0 \<and> (\<forall>t. ?n t \<le> 1)"
  proof
    assume a: "\<forall>t. (if owner b = t then Suc (?n t) else ?n t) \<le> 1"
    from a [rule_format, of "owner b"] have z: "?n (owner b) = 0" by simp
    have "?n t \<le> 1" for t
      using a [rule_format, of t] z by (cases "owner b = t") simp_all
    with z show "?n (owner b) = 0 \<and> (\<forall>t. ?n t \<le> 1)" by blast
  next
    assume "?n (owner b) = 0 \<and> (\<forall>t. ?n t \<le> 1)"
    then show "\<forall>t. (if owner b = t then Suc (?n t) else ?n t) \<le> 1" by auto
  qed
  finally show ?case
    using Cons e by simp
qed

lemma one_bullet_distinct: "one_bullet_per_owner s \<longleftrightarrow> distinct (map owner (bullets s))"
proof -
  have "(\<forall>t. length (filter (\<lambda>b. owner b = t) (bullets s)) \<le> 1) \<longleftrightarrow>
        length (filter (\<lambda>b. owner b = P1) (bullets s)) \<le> 1 \<and>
        length (filter (\<lambda>b. owner b = P2) (bullets s)) \<le> 1"
    by (metis tank_id.exhaust)
  then show ?thesis
    by (simp add: one_bullet_per_owner_def live_bullets_of_def filter_owner_distinct)
qed

lemma fire_distinct:
  "fire tid s = Some s' \<Longrightarrow> distinct (map owner (bullets s)) \<Longrightarrow> distinct (map owner (bullets s'))"
  by (auto simp: fire_def Let_def spawnBullet_def hasActiveBullet_def list_ex_iff
           split: option.splits if_splits)

lemma resolveAction_distinct:
  "resolveAction tid ao si = Some si' \<Longrightarrow> distinct (map owner (bullets (fst si))) \<Longrightarrow>
   distinct (map owner (bullets (fst si')))"
  using rotateTank_props [of "fst si" tid]
  by (auto simp: resolveAction_def split: option.splits if_splits dest: fire_distinct)

lemma resolveTurn_distinct:
  assumes "resolveTurn d cfg s0 = Some s'" and "distinct (map owner (bullets s0))"
  shows "distinct (map owner (bullets s'))"
proof -
  let ?bt = "beginTurn s0"
  let ?ub = "updateBullets cfg ?bt"
  let ?a1 = "pendingActions ?bt P1"
  let ?a2 = "pendingActions ?bt P2"
  from assms(1) obtain sa sb sc sd si1 si2 s1 where
    a: "sensor (resolveScan d) ''SCAN'' P1 ?a1 ?ub = Some sa" and
    b: "sensor (resolveScan d) ''SCAN'' P2 ?a2 sa = Some sb" and
    c: "sensor (resolvePing d) ''PING'' P1 ?a1 sb = Some sc" and
    d: "sensor (resolvePing d) ''PING'' P2 ?a2 sc = Some sd" and
    e: "resolveAction P1 ?a1 (sd, (\<lambda>_. None)) = Some si1" and
    f: "resolveAction P2 ?a2 si1 = Some si2" and
    g: "applyMovements (fst si2) (snd si2) = Some s1" and
    h: "s' = (gameOverCheck cfg s1)\<lparr>pendingActions := (pendingActions s1)(P1 := None, P2 := None)\<rparr>"
    by (auto simp: resolveTurn_def Let_def split: Option.bind_splits)
  have "distinct (map owner (bullets ?ub))"
    by (rule updateBullets_distinct) (simp add: beginTurn_fields assms(2))
  then have "distinct (map owner (bullets sd))"
    using sensor_scan_props [OF a] sensor_scan_props [OF b] sensor_ping_props [OF c]
      sensor_ping_props [OF d] by simp
  then have "distinct (map owner (bullets (fst si1)))"
    using resolveAction_distinct [OF e] by simp
  then have "distinct (map owner (bullets (fst si2)))"
    using resolveAction_distinct [OF f] by simp
  then have "distinct (map owner (bullets s1))"
    using applyMovements_props [OF g] by simp
  then show ?thesis by (simp add: h gameOverCheck_fields)
qed

lemma fire_reloading:
  "hasActiveBullet tid s \<Longrightarrow> \<exists>s'. fire tid s = Some s' \<and> bullets s' = bullets s"
  by (simp add: fire_def)

lemma one_bullet_steps:
  "one_bullet_per_owner (new_BattleManager cfg :: 'c manager) \<and>
   one_bullet_per_owner (resetTurnState cfg s) \<and>
   (one_bullet_per_owner s \<longrightarrow>
      one_bullet_per_owner (setupArena level s) \<and>
      one_bullet_per_owner (snd (loadCode d cfg p1Code p2Code s)) \<and>
      (\<forall>r s'. stepCPU d tid s = Some (r, s') \<longrightarrow> one_bullet_per_owner s') \<and>
      (\<forall>s'. resolveTurn d cfg s = Some s' \<longrightarrow> one_bullet_per_owner s')) \<and>
   (atype a = ''FIRE'' \<and> hasActiveBullet tid s \<longrightarrow>
      (\<exists>s'. resolveAction tid (Some a) (s, ints) = Some (s', ints) \<and> bullets s' = bullets s))"
proof -
  have "one_bullet_per_owner (new_BattleManager cfg :: 'c manager)"
    by (simp add: one_bullet_distinct new_BattleManager_fields)
  moreover have "one_bullet_per_owner (resetTurnState cfg s)"
    by (simp add: one_bullet_distinct resetTurnState_fields)
  moreover have "one_bullet_per_owner (setupArena level s)" if "one_bullet_per_owner s"
    using that by (simp add: one_bullet_distinct setupArena_eq)
  moreover have "one_bullet_per_owner (snd (loadCode d cfg p1Code p2Code s))"
    if "one_bullet_per_owner s"
    using that by (simp add: one_bullet_distinct loadCode_status)
  moreover have "one_bullet_per_owner s'"
    if "one_bullet_per_owner s" "stepCPU d tid s = Some (r, s')" for r s'
    using that stepCPU_fields(2) [OF that(2)] by (simp add: one_bullet_distinct)
  moreover have "one_bullet_per_owner s'"
    if "one_bullet_per_owner s" "resolveTurn d cfg s = Some s'" for s'
    using resolveTurn_distinct [OF that(2)] that(1) by (simp add: one_bullet_distinct)
  moreover have "\<exists>s'. resolveAction tid (Some a) (s, ints) = Some (s', ints) \<and> bullets s' = bullets s"
    if "atype a = ''FIRE''" "hasActiveBullet tid s"
    using fire_reloading [OF that(2)] resolveAction_fire [OF that(1), of tid s ints] by auto
  ultimately show ?thesis by blast
qed

lemma refire_fields:
  "bullets refire_state = [flying_bullet]"
  "pendingActions refire_state = (\<lambda>_. None)(P1 := Some (plain_action ''FIRE''))"
  "tanks refire_state P2 = tanks test_arena P2"
  "tanks refire_state P1 =
     (tanks test_arena P1)\<lparr>cpu := Some \<lparr>calls = [], script = [plain_action ''FIRE'']\<rparr>\<rparr>"
  by (simp_all add: refire_state_def reloading_fields flying_bullet_def reloading_state_def
        armed_state_def test_arena_fields)

lemma turn_ok_refire: "turn_ok refire_state"
  by (simp add: turn_ok_def refire_fields test_arena_fields new_tank_def valid_facing_iff
        needs_cpu_def isType_def plain_action_def)

text \<open>
  C5. Every state the public operations lead to from the constructor holds at most one
  live bullet per owner; and resolving a FIRE action of a tank that has a live bullet
  returns with the bullet list as it was.
\<close>

theorem one_live_bullet_per_owner:
  "(reachable d cfg s \<longrightarrow> one_bullet_per_owner s) \<and>
   (atype a = ''FIRE'' \<and> hasActiveBullet tid s0 \<longrightarrow>
      (\<exists>s'. resolveAction tid (Some a) (s0, ints) = Some (s', ints) \<and> bullets s' = bullets s0))"
proof -
  have "one_bullet_per_owner s" if "reachable d cfg s"
    using that
  proof (induction rule: reachable.induct)
    case constructed
    show ?case using one_bullet_steps [where cfg = cfg] by blast
  next
    case (arena_set s level)
    then show ?case using one_bullet_steps [where cfg = cfg and s = s and level = level] by blast
  next
    case (code_loaded s p1Code p2Code)
    then show ?case using one_bullet_steps [where cfg = cfg and s = s and d = d and ?p1Code.0 = p1Code and ?p2Code.0 = p2Code] by blast
  next
    case (turn_reset s)
    show ?case using one_bullet_steps [where cfg = cfg and s = s] by blast
  next
    case (cpu_stepped s tid r s')
    then show ?case using one_bullet_steps [where cfg = cfg and s = s and d = d and tid = tid] by blast
  next
    case (turn_resolved s s')
    then show ?case using one_bullet_steps [where cfg = cfg and s = s and d = d] by blast
  qed
  moreover have "\<exists>s'. resolveAction tid (Some a) (s0, ints) = Some (s', ints) \<and> bullets s' = bullets s0"
    if "atype a = ''FIRE''" "hasActiveBullet tid s0"
    using one_bullet_steps [where s = s0 and a = a and tid = tid and ints = ints] that by blast
  ultimately show ?thesis by blast
qed

text \<open>
  The fresh arena is reachable, and so is the state after one turn on it; P1 firing again
  while its bullet is in flight leaves the one bullet.
\<close>

theorem one_live_bullet_per_owner_witness:
  "reachable test_deps (inlined_config 1000) test_arena \<and> one_bullet_per_owner test_arena \<and>
   (\<exists>s'. resolveTurn test_deps (inlined_config 1000) test_arena = Some s' \<and>
         reachable test_deps (inlined_config 1000) s' \<and> one_bullet_per_owner s') \<and>
   hasActiveBullet P1 refire_state \<and>
   (\<exists>s'. resolveAction P1 (Some (plain_action ''FIRE'')) (refire_state, (\<lambda>_. None)) =
            Some (s', (\<lambda>_. None)) \<and>
         bullets s' = [flying_bullet])"
proof -
  have i: "reachable test_deps (inlined_config 1000) test_arena"
    unfolding test_arena_def by (rule reachable.constructed)
  obtain s' where r: "resolveTurn test_deps (inlined_config 1000) test_arena = Some s'"
    using resolveTurn_total [OF turn_ok_test_arena] by blast
  from reachable.turn_resolved [OF i r] have i': "reachable test_deps (inlined_config 1000) s'" .
  have h: "hasActiveBullet P1 refire_state"
    by (simp add: hasActiveBullet_def refire_fields flying_bullet_def)
  have a: "atype (plain_action ''FIRE'') = ''FIRE''" by (simp add: plain_action_def)
  from one_live_bullet_per_owner [of test_deps "inlined_config 1000" test_arena] i
  have 1: "one_bullet_per_owner test_arena" by blast
  from one_live_bullet_per_owner [of test_deps "inlined_config 1000" s'] i'
  have 2: "one_bullet_per_owner s'" by blast
  from one_live_bullet_per_owner [of test_deps "inlined_config 1000" test_arena
      "plain_action ''FIRE''" P1 refire_state "\<lambda>_. None"] a h
  have 3: "\<exists>s'. resolveAction P1 (Some (plain_action ''FIRE'')) (refire_state, (\<lambda>_. None)) =
            Some (s', (\<lambda>_. None)) \<and> bullets s' = bullets refire_state"
    by blast
  from i 1 r i' 2 h 3 show ?thesis by (auto simp: refire_fields)
qed

section \<open>Bullet advance (C2)\<close>

lemma hit_both:
  "hitTank b P2 (hitTank b P1 (True, s)) =
     (if hits_tank s b
      then (False,
            addEvent ''EXPLOSION''
              (explosion_data (bullet_x b) (bullet_y b) (owner b) (Some (enemy_of (owner b))))
              (logTick (owner b)
                 (tid_str (owner b) @ '' bullet hits '' @ tid_str (enemy_of (owner b)) @ ''! HP: '' @
                  String_of (hp (tanks s (enemy_of (owner b))) - 1))
                 (upd_tank (enemy_of (owner b)) (\<lambda>t. t\<lparr>hp := hp t - 1\<rparr>) s)))
      else (True, s))"
  by (cases "owner b") (simp_all add: hitTank_def Let_def hits_tank_def enemy_of_def)

lemma subStep_eq:
  "subStep cfg b s =
     (if out_of_range cfg (moved b) then (False, moved b, s)
      else if hits_obstacle s (moved b)
      then (False, moved b,
            addEvent ''EXPLOSION''
              (explosion_data (bullet_x (moved b)) (bullet_y (moved b)) (owner b) None) s)
      else (fst (hitTank (moved b) P2 (hitTank (moved b) P1 (True, s))), moved b,
            snd (hitTank (moved b) P2 (hitTank (moved b) P1 (True, s)))))"
  by (simp add: subStep_def Let_def moved_def out_of_range_def hits_obstacle_def)

lemma owner_moved [simp]: "owner (moved b) = owner b"
  by (simp add: moved_def)

lemma subStep_result:
  assumes "subStep cfg b s = (active, b', s')"
  shows "b' = moved b \<and>
     active = (\<not> out_of_range cfg b' \<and> \<not> hits_obstacle s b' \<and> \<not> hits_tank s b') \<and>
     events s' = events s @ explosion_events cfg s b' \<and>
     hp (tanks s' t) =
       (if \<not> out_of_range cfg b' \<and> \<not> hits_obstacle s b' \<and> hits_tank s b' \<and> t = enemy_of (owner b)
        then hp (tanks s t) - 1 else hp (tanks s t))"
proof -
  from assms have b': "b' = moved b"
    by (simp add: subStep_eq split: if_splits)
  consider (range) "out_of_range cfg (moved b)"
    | (wall) "\<not> out_of_range cfg (moved b)" "hits_obstacle s (moved b)"
    | (tank) "\<not> out_of_range cfg (moved b)" "\<not> hits_obstacle s (moved b)" "hits_tank s (moved b)"
    | (free) "\<not> out_of_range cfg (moved b)" "\<not> hits_obstacle s (moved b)" "\<not> hits_tank s (moved b)"
    by blast
  then show ?thesis
  proof cases
    case range
    with assms show ?thesis by (simp add: subStep_eq b' explosion_events_def)
  next
    case wall
    with assms show ?thesis by (auto simp: subStep_eq b' explosion_events_def)
  next
    case tank
    with assms show ?thesis by (auto simp: subStep_eq hit_both b' explosion_events_def)
  next
    case free
    with assms show ?thesis by (simp add: subStep_eq hit_both b' explosion_events_def)
  qed
qed

lemma subSteps_inactive: "subSteps n cfg (False, b, s) = (False, b, s)"
  by (cases n) simp_all

lemma subSteps_Suc:
  "subSteps (Suc n) cfg (True, b, s) =
     (case subStep cfg b s of
        (active, b', s') \<Rightarrow> if active then subSteps n cfg (True, b', s') else (False, b', s'))"
  by (cases "subStep cfg b s") (auto simp: subSteps_inactive)

lemma bulletLoop_acc:
  "bulletLoop cfg bs (sv, s) =
     (sv @ fst (bulletLoop cfg bs ([], s)), snd (bulletLoop cfg bs ([], s)))"
proof (induction bs arbitrary: sv s)
  case Nil
  then show ?case by simp
next
  case (Cons b bs)
  obtain active b' s' where st: "subSteps (BULLET_SPEED cfg) cfg (True, b, s) = (active, b', s')"
    by (cases "subSteps (BULLET_SPEED cfg) cfg (True, b, s)") auto
  show ?case
  proof (cases active)
    case True
    with Cons [of "sv @ [b']" s'] Cons [of "[b']" s'] show ?thesis by (simp add: st)
  next
    case False
    with Cons [of sv s'] show ?thesis by (simp add: st)
  qed
qed

lemma survivors_Cons:
  "fst (bulletLoop cfg (b # bs) ([], s)) =
     (case subSteps (BULLET_SPEED cfg) cfg (True, b, s) of
        (active, b', s') \<Rightarrow> (if active then [b'] else []) @ fst (bulletLoop cfg bs ([], s')))"
proof -
  obtain active b' s' where st: "subSteps (BULLET_SPEED cfg) cfg (True, b, s) = (active, b', s')"
    by (cases "subSteps (BULLET_SPEED cfg) cfg (True, b, s)") auto
  show ?thesis
    using bulletLoop_acc [of cfg bs "[b']" s']
    by (cases active) (simp_all add: st)
qed

lemma updateBullets_survivors:
  "bullets (updateBullets cfg s) = fst (bulletLoop cfg (bullets s) ([], s))"
  by (cases "bulletLoop cfg (bullets s) ([], s)") (simp add: updateBullets_def)

lemma subStep_free:
  "\<not> hits_obstacle s (moved b) \<Longrightarrow> \<not> hits_tank s (moved b) \<Longrightarrow>
   subStep cfg b s = (\<not> out_of_range cfg (moved b), moved b, s)"
  by (simp add: subStep_eq hit_both)

lemma free_path_range:
  "free_path s b n \<Longrightarrow> dist b \<le> BULLET_MAX_RANGE cfg \<Longrightarrow>
     fst (subSteps n cfg (True, b, s)) = (dist b + int n \<le> BULLET_MAX_RANGE cfg) \<and>
     snd (snd (subSteps n cfg (True, b, s))) = s \<and>
     (if dist b + int n \<le> BULLET_MAX_RANGE cfg
      then fst (snd (subSteps n cfg (True, b, s))) = (moved ^^ n) b else True)"
proof (induction n arbitrary: b)
  case 0
  then show ?case by simp
next
  case (Suc n)
  from Suc.prems have f: "\<not> hits_obstacle s (moved b)" "\<not> hits_tank s (moved b)"
    "free_path s (moved b) n" by simp_all
  have d: "dist (moved b) = dist b + 1" by (simp add: moved_def)
  show ?case
  proof (cases "out_of_range cfg (moved b)")
    case True
    then show ?thesis
      by (simp add: subStep_free [OF f(1,2)] subSteps_inactive out_of_range_def d)
  next
    case False
    then have "dist (moved b) \<le> BULLET_MAX_RANGE cfg" by (simp add: out_of_range_def)
    from Suc.IH [OF f(3) this] False show ?thesis
      by (simp add: subStep_free [OF f(1,2)] d funpow_swap1)
  qed
qed

lemma resolveTurn_afterBullets:
  "resolveTurn d cfg s0 =
     afterBullets d cfg (pendingActions s0 P1) (pendingActions s0 P2)
       (updateBullets cfg (beginTurn s0))"
  by (simp add: resolveTurn_def afterBullets_def Let_def beginTurn_fields)

lemma updateBullets_eq:
  "updateBullets cfg s =
     (snd (bulletLoop cfg (bullets s) ([], s)))\<lparr>bullets := fst (bulletLoop cfg (bullets s) ([], s))\<rparr>"
  by (cases "bulletLoop cfg (bullets s) ([], s)") (simp add: updateBullets_def)

lemma bulletLoop_Cons:
  "bulletLoop cfg (b # bs) ([], s) =
     (case subSteps (BULLET_SPEED cfg) cfg (True, b, s) of
        (active, b', s') \<Rightarrow>
          ((if active then [b'] else []) @ fst (bulletLoop cfg bs ([], s')),
           snd (bulletLoop cfg bs ([], s'))))"
proof -
  obtain active b' s' where st: "subSteps (BULLET_SPEED cfg) cfg (True, b, s) = (active, b', s')"
    by (cases "subSteps (BULLET_SPEED cfg) cfg (True, b, s)") auto
  show ?thesis
    using bulletLoop_acc [of cfg bs "[b']" s']
    by (cases active) (simp_all add: st)
qed

lemma subStep_closed:
  "subStep cfg b s =
     (if out_of_range cfg (moved b) then (False, moved b, s)
      else if hits_obstacle s (moved b)
      then (False, moved b,
            addEvent ''EXPLOSION''
              (explosion_data (bullet_x (moved b)) (bullet_y (moved b)) (owner b) None) s)
      else if hits_tank s (moved b)
      then (False, moved b,
            addEvent ''EXPLOSION''
              (explosion_data (bullet_x (moved b)) (bullet_y (moved b)) (owner b)
                 (Some (enemy_of (owner b))))
              (logTick (owner b)
                 (tid_str (owner b) @ '' bullet hits '' @ tid_str (enemy_of (owner b)) @ ''! HP: '' @
                  String_of (hp (tanks s (enemy_of (owner b))) - 1))
                 (upd_tank (enemy_of (owner b)) (\<lambda>t. t\<lparr>hp := hp t - 1\<rparr>) s)))
      else (True, moved b, s))"
  by (simp add: subStep_eq hit_both)

text \<open>After the bullet advance the event list only grows, and only FIRE touches HP or bullets.\<close>

lemma resolveScan_events: "resolveScan d tid a s = Some s' \<Longrightarrow> events s' = events s"
  by (auto simp: resolveScan_def Let_def split: option.splits)

lemma resolvePing_events: "resolvePing d tid a s = Some s' \<Longrightarrow> \<exists>es. events s' = events s @ es"
  by (auto simp: resolvePing_def Let_def split: option.splits if_splits)

lemma sensor_scan_events:
  "sensor (resolveScan d) ty tid ao s = Some s' \<Longrightarrow> events s' = events s"
  by (auto simp: sensor_def split: option.splits if_splits dest: resolveScan_events)

lemma sensor_ping_events:
  "sensor (resolvePing d) ty tid ao s = Some s' \<Longrightarrow> \<exists>es. events s' = events s @ es"
  by (auto simp: sensor_def split: option.splits if_splits dest: resolvePing_events)

lemma fire_events: "fire tid s = Some s' \<Longrightarrow> \<exists>es. events s' = events s @ es"
  by (auto simp: fire_def Let_def spawnBullet_def split: option.splits if_splits)

lemma rotateTank_events: "events (rotateTank tid a s) = events s"
  by (simp add: rotateTank_def Let_def)

lemma resolveAction_events:
  "resolveAction tid ao si = Some si' \<Longrightarrow> \<exists>es. events (fst si') = events (fst si) @ es"
  by (auto simp: resolveAction_def rotateTank_events split: option.splits if_splits dest: fire_events)

lemma checks_events:
  "events (fst (wallCheck tid m si)) = events (fst si)"
  "events (fst (headOnCheck si)) = events (fst si)"
  "events (fst (sameTargetCheck si)) = events (fst si)"
  "events (fst (blockedCheck tid si)) = events (fst si)"
  by (simp_all add: wallCheck_eq headOnCheck_eq sameTargetCheck_eq blockedCheck_eq)

lemma moveResult_events: "moveResult tid move ints s = Some s' \<Longrightarrow> events s' = events s"
  by (auto simp: moveResult_def Let_def split: option.splits)

lemma applyMovements_events:
  assumes "applyMovements s ints = Some s'"
  shows "events s' = events s"
proof -
  define si where "si = filterIntents s ints"
  from assms obtain s1 s2 where
    m1: "moveResult P1 (ints P1) (snd si) (fst si) = Some s1" and
    m2: "moveResult P2 (ints P2) (snd si) s1 = Some s2" and
    r: "s' = clampTank P2 (clampTank P1 s2)"
    by (auto simp only: applyMovements_def si_def filterIntents_def Let_def split: option.splits)
  have "events (fst si) = events s"
    by (simp add: si_def filterIntents_def checks_events)
  with moveResult_events [OF m1] moveResult_events [OF m2] show ?thesis
    by (simp add: r clampTank_def)
qed

lemma gameOverCheck_events: "events (gameOverCheck cfg s) = events s"
  by (simp add: gameOverCheck_def turnLimitCheck_def stalemateCheck_def destroyedCheck_def Let_def)

lemma sensor_other: "\<not> isType ty ao \<Longrightarrow> sensor resolve ty tid ao s = Some s"
  by (simp add: sensor_def isType_def split: option.splits)

lemma resolveAction_no_fire_events:
  "resolveAction tid ao si = Some si' \<Longrightarrow> \<not> isType ''FIRE'' ao \<Longrightarrow>
     events (fst si') = events (fst si)"
  by (auto simp: resolveAction_def isType_def rotateTank_events split: option.splits if_splits)

lemma resolveTurn_after_bullets:
  assumes "resolveTurn d cfg s0 = Some s'"
  shows "(\<exists>es. events s' = events (updateBullets cfg (beginTurn s0)) @ es) \<and>
         (\<not> isType ''FIRE'' (pendingActions s0 P1) \<and> \<not> isType ''FIRE'' (pendingActions s0 P2) \<longrightarrow>
            (\<forall>t. hp (tanks s' t) = hp (tanks (updateBullets cfg (beginTurn s0)) t)) \<and>
            bullets s' = bullets (updateBullets cfg (beginTurn s0)) \<and>
            (\<not> isType ''PING'' (pendingActions s0 P1) \<and> \<not> isType ''PING'' (pendingActions s0 P2) \<longrightarrow>
               events s' = events (updateBullets cfg (beginTurn s0))))"
proof -
  let ?bt = "beginTurn s0"
  let ?ub = "updateBullets cfg ?bt"
  let ?a1 = "pendingActions ?bt P1"
  let ?a2 = "pendingActions ?bt P2"
  from assms obtain sa sb sc sd si1 si2 s1 where
    a: "sensor (resolveScan d) ''SCAN'' P1 ?a1 ?ub = Some sa" and
    b: "sensor (resolveScan d) ''SCAN'' P2 ?a2 sa = Some sb" and
    c: "sensor (resolvePing d) ''PING'' P1 ?a1 sb = Some sc" and
    d: "sensor (resolvePing d) ''PING'' P2 ?a2 sc = Some sd" and
    e: "resolveAction P1 ?a1 (sd, (\<lambda>_. None)) = Some si1" and
    f: "resolveAction P2 ?a2 si1 = Some si2" and
    g: "applyMovements (fst si2) (snd si2) = Some s1" and
    h: "s' = (gameOverCheck cfg s1)\<lparr>pendingActions := (pendingActions s1)(P1 := None, P2 := None)\<rparr>"
    by (auto simp: resolveTurn_def Let_def split: Option.bind_splits)
  have sab: "events sb = events ?ub"
    using sensor_scan_events [OF a] sensor_scan_events [OF b] by simp
  have s1: "events s' = events (fst si2)"
    using applyMovements_events [OF g] by (simp add: h gameOverCheck_events)
  have ev: "\<exists>es. events s' = events ?ub @ es"
  proof -
    from sensor_ping_events [OF c] obtain e1 where 1: "events sc = events sb @ e1" by blast
    from sensor_ping_events [OF d] obtain e2 where 2: "events sd = events sc @ e2" by blast
    from resolveAction_events [OF e] obtain e3 where 3: "events (fst si1) = events sd @ e3" by auto
    from resolveAction_events [OF f] obtain e4 where 4: "events (fst si2) = events (fst si1) @ e4"
      by blast
    have "events s' = events ?ub @ (e1 @ e2 @ e3 @ e4)"
      using sab s1 1 2 3 4 by simp
    then show ?thesis by blast
  qed
  have q: "(\<forall>t. hp (tanks s' t) = hp (tanks ?ub t)) \<and> bullets s' = bullets ?ub \<and>
           (\<not> isType ''PING'' (pendingActions s0 P1) \<and> \<not> isType ''PING'' (pendingActions s0 P2) \<longrightarrow>
              events s' = events ?ub)"
    if nf: "\<not> isType ''FIRE'' (pendingActions s0 P1)" "\<not> isType ''FIRE'' (pendingActions s0 P2)"
  proof -
    have n: "\<not> isType ''FIRE'' ?a1" "\<not> isType ''FIRE'' ?a2"
      using nf by (simp_all add: beginTurn_fields)
    have "hp (tanks s1 t) = hp (tanks ?ub t)" for t
      using sensor_scan_hp [OF a, of t] sensor_scan_hp [OF b, of t] sensor_ping_hp [OF c, of t]
        sensor_ping_hp [OF d, of t] resolveAction_quiet [OF e n(1), of t]
        resolveAction_quiet [OF f n(2), of t] applyMovements_props [OF g, of t]
      by simp
    then have hp: "\<forall>t. hp (tanks s' t) = hp (tanks ?ub t)"
      by (simp add: h gameOverCheck_fields)
    have "bullets s1 = bullets ?ub"
      using sensor_scan_props [OF a] sensor_scan_props [OF b] sensor_ping_props [OF c]
        sensor_ping_props [OF d] resolveAction_quiet [OF e n(1), of P1]
        resolveAction_quiet [OF f n(2), of P1] applyMovements_props [OF g, of P1]
      by simp
    then have bl: "bullets s' = bullets ?ub"
      by (simp add: h gameOverCheck_fields)
    have "events s' = events ?ub"
      if np: "\<not> isType ''PING'' (pendingActions s0 P1)" "\<not> isType ''PING'' (pendingActions s0 P2)"
    proof -
      have m: "\<not> isType ''PING'' ?a1" "\<not> isType ''PING'' ?a2"
        using np by (simp_all add: beginTurn_fields)
      from c sensor_other [OF m(1), of "resolvePing d" P1 sb] have "sc = sb" by simp
      moreover from d sensor_other [OF m(2), of "resolvePing d" P2 sc] have "sd = sc" by simp
      ultimately show ?thesis
        using sab s1 resolveAction_no_fire_events [OF e n(1)]
          resolveAction_no_fire_events [OF f n(2)]
        by simp
    qed
    with hp bl show ?thesis by blast
  qed
  from ev q show ?thesis by blast
qed


lemma closing_hits:
  "\<not> out_of_range (inlined_config 1000) (moved closing_bullet)"
  "\<not> hits_obstacle test_arena (moved closing_bullet)"
  "hits_tank test_arena (moved closing_bullet)"
  by (simp_all add: out_of_range_def hits_obstacle_def hits_tank_def moved_def closing_bullet_def
        inlined_config_def test_arena_fields new_tank_def isValid_def enemy_of_def)

lemma fresh_free: "free_path test_arena fresh_bullet 4"
  by (simp add: numeral_eq_Suc hits_obstacle_def hits_tank_def moved_def fresh_bullet_def
        test_arena_fields new_tank_def isValid_def enemy_of_def)

lemma closing_fields:
  "tanks closing_state = tanks test_arena"
  "grid closing_state = grid test_arena"
  "events closing_state = events test_arena"
  "bullets closing_state = [closing_bullet]"
  "pendingActions closing_state = (\<lambda>_. None)"
  by (simp_all add: closing_state_def test_arena_fields)

lemma beginTurn_cells:
  "events (beginTurn s) = events s"
  "tank_x (tanks (beginTurn s) t) = tank_x (tanks s t)"
  "tank_y (tanks (beginTurn s) t) = tank_y (tanks s t)"
  by (simp_all add: beginTurn_def Let_def)

lemma turn_ok_closing: "turn_ok closing_state"
  by (simp add: turn_ok_def closing_fields test_arena_fields new_tank_def valid_facing_iff
        needs_cpu_def isType_def)

section \<open>Game-over evaluation (C4)\<close>

lemma loadCode_success_parsed:
  assumes "success (fst (loadCode d cfg a b s))"
  shows "error_message (parse d (tokenize d a)) = None \<and>
         error_message (parse d (tokenize d b)) = None"
  using assms
  by (auto simp: loadCode_def Let_def load_failed_def split: option.splits)

lemma resetTurnState_tanks:
  "hp (tanks (resetTurnState cfg s) t) = INITIAL_HP cfg"
  "cpu (tanks (resetTurnState cfg s) t) = cpu (tanks s t)"
  by (cases t; simp add: resetTurnState_def Let_def upd_tank_def)+

lemma loadCode_success_fields:
  assumes "success (fst (loadCode d cfg a b s))"
  shows "isGameOver (snd (loadCode d cfg a b s)) = False"
    and "bullets (snd (loadCode d cfg a b s)) = []"
    and "pendingActions (snd (loadCode d cfg a b s)) = (\<lambda>_. None)"
    and "turnCount (snd (loadCode d cfg a b s)) = 0"
    and "hp (tanks (snd (loadCode d cfg a b s)) t) = INITIAL_HP cfg"
    and "cpu (tanks (snd (loadCode d cfg a b s)) t) \<noteq> None"
proof -
  note p = loadCode_success_parsed [OF assms]
  note l = loadCode_succeeds [of d a b cfg s, OF p [THEN conjunct1] p [THEN conjunct2]]
  show "isGameOver (snd (loadCode d cfg a b s)) = False"
    and "bullets (snd (loadCode d cfg a b s)) = []"
    and "pendingActions (snd (loadCode d cfg a b s)) = (\<lambda>_. None)"
    and "turnCount (snd (loadCode d cfg a b s)) = 0"
    and "hp (tanks (snd (loadCode d cfg a b s)) t) = INITIAL_HP cfg"
    by (simp_all add: l resetTurnState_fields resetTurnState_tanks)
  show "cpu (tanks (snd (loadCode d cfg a b s)) t) \<noteq> None"
    by (cases t) (simp_all add: l resetTurnState_tanks upd_tank_def)
qed

text \<open>
  A micro-step of a living tank with a CPU whose result is HALT, or null, leaves a HALT
  pending for that tank and the other tank's pending action alone.
\<close>

lemma stepCPU_halt_pending:
  assumes "stepCPU d tid s = Some (r, s')" and "cpu (tanks s tid) \<noteq> None"
    and "0 < hp (tanks s tid)" and "halts r"
  shows "isType ''HALT'' (pendingActions s' tid)"
    and "t \<noteq> tid \<Longrightarrow> pendingActions s' t = pendingActions s t"
  using assms
  by (auto simp: stepCPU_def Let_def recordResult_def halts_def isType_def plain_action_def
           split: option.splits if_splits)

lemma resolveTurn_halted_total:
  assumes "isType ''HALT'' (pendingActions s0 P1)" and "isType ''HALT'' (pendingActions s0 P2)"
  shows "\<exists>s'. resolveTurn d cfg s0 = Some s'"
proof -
  from assms obtain a1 a2 where
    a: "pendingActions s0 P1 = Some a1" "atype a1 = ''HALT''"
       "pendingActions s0 P2 = Some a2" "atype a2 = ''HALT''"
    by (auto simp: isType_def split: option.splits)
  obtain s1 where "applyMovements (updateBullets cfg (beginTurn s0)) (\<lambda>_. None) = Some s1"
    using applyMovements_total by blast
  then show ?thesis
    by (simp add: resolveTurn_def Let_def beginTurn_fields a sensor_def resolveAction_def)
qed

lemma halted_turn:
  assumes l: "success (fst (loadCode d cfg a b s))" and h: "0 < INITIAL_HP cfg"
    and s1: "stepCPU d P1 (snd (loadCode d cfg a b s)) = Some (r1, s2)" and h1: "halts r1"
    and s2: "stepCPU d P2 s2 = Some (r2, s3)" and h2: "halts r2"
  shows "\<exists>s'. resolveTurn d cfg s3 = Some s' \<and> isGameOver s' \<and>
              winner s' = Some ''DRAW (STALEMATE)'' \<and> turnCount s' = 1"
proof -
  let ?L = "snd (loadCode d cfg a b s)"
  note lf = loadCode_success_fields [OF l]
  have c1: "cpu (tanks ?L P1) \<noteq> None" and hp1: "0 < hp (tanks ?L P1)"
    using lf(6) [of P1] h by (simp_all add: lf(5))
  have c2: "cpu (tanks s2 P2) \<noteq> None" and hp2: "0 < hp (tanks s2 P2)"
    using lf(6) [of P2] h stepCPU_fields(11) [OF s1, of P2]
    by (simp_all add: stepCPU_fields(7) [OF s1] lf(5))
  have p1: "isType ''HALT'' (pendingActions s3 P1)"
    using stepCPU_halt_pending(1) [OF s1 c1 hp1 h1]
      stepCPU_halt_pending(2) [OF s2 c2 hp2 h2, of P1]
    by simp
  have p2: "isType ''HALT'' (pendingActions s3 P2)"
    by (rule stepCPU_halt_pending(1) [OF s2 c2 hp2 h2])
  have nf: "\<not> isType ''FIRE'' (pendingActions s3 P1)" "\<not> isType ''FIRE'' (pendingActions s3 P2)"
    using p1 p2 by (auto simp: isType_def split: option.splits)
  have f3: "bullets s3 = []" "isGameOver s3 = False" "turnCount s3 = 0"
    "hp (tanks s3 t) = INITIAL_HP cfg" for t
    by (simp_all add: stepCPU_fields [OF s2] stepCPU_fields [OF s1] lf)
  from resolveTurn_halted_total [OF p1 p2]
  obtain s' where r: "resolveTurn d cfg s3 = Some s'" by blast
  have q: "hp (tanks s' t) = INITIAL_HP cfg" for t
    using resolveTurn_quiet [OF r f3(1) nf, of t] by (simp add: f3)
  have "verdict cfg s3 (INITIAL_HP cfg) (INITIAL_HP cfg) = (True, Some ''DRAW (STALEMATE)'')"
    using h p1 p2 by (simp add: verdict_def f3)
  with resolveTurn_verdict [OF r]
  have "isGameOver s' \<and> winner s' = Some ''DRAW (STALEMATE)'' \<and> turnCount s' = 1"
    by (simp add: q f3)
  with r show ?thesis by blast
qed

text \<open>
  C4, as amended. A call of \<^verbatim>\<open>resolveTurn\<close> on a well-formed state returns, and every
  call that returns leaves the status and winner decided in this order: both tanks at HP
  \<open>\<le> 0\<close> give \<open>DRAW\<close>; exactly one tank at HP \<open>\<le> 0\<close> gives the other tank as winner;
  otherwise a game that was already over when the call started keeps its status and
  winner; otherwise two pending HALT actions give \<open>DRAW (STALEMATE)\<close>; otherwise a turn
  count that has reached the maximum gives \<open>DRAW (TURN LIMIT)\<close>; otherwise the game goes
  on. The pending actions are cleared afterwards. Two programs consisting solely of HALT
  end the game immediately as a stalemate draw: after a successful \<^verbatim>\<open>loadCode\<close>, on
  whatever state and with a positive initial HP, when the first micro-step of P1 and then
  of P2 each give HALT (or no result), the \<^verbatim>\<open>resolveTurn\<close> that follows returns with the
  game over, the winner \<open>DRAW (STALEMATE)\<close> and the turn count 1.
\<close>

theorem resolveTurn_game_over:
  "(turn_ok s0 \<longrightarrow> (\<exists>s'. resolveTurn d cfg s0 = Some s')) \<and>
   (\<forall>s'. resolveTurn d cfg s0 = Some s' \<longrightarrow>
      (isGameOver s', winner s') = verdict cfg s0 (hp (tanks s' P1)) (hp (tanks s' P2)) \<and>
      pendingActions s' P1 = None \<and> pendingActions s' P2 = None) \<and>
   (\<forall>r1 s2 r2 s3.
      success (fst (loadCode d cfg p1Code p2Code s)) \<and> 0 < INITIAL_HP cfg \<and>
      stepCPU d P1 (snd (loadCode d cfg p1Code p2Code s)) = Some (r1, s2) \<and> halts r1 \<and>
      stepCPU d P2 s2 = Some (r2, s3) \<and> halts r2 \<longrightarrow>
      (\<exists>s'. resolveTurn d cfg s3 = Some s' \<and> isGameOver s' \<and>
            winner s' = Some ''DRAW (STALEMATE)'' \<and> turnCount s' = 1))"
proof -
  have "\<exists>s'. resolveTurn d cfg s0 = Some s'" if "turn_ok s0"
    using resolveTurn_total [OF that] .
  moreover have "(isGameOver s', winner s') = verdict cfg s0 (hp (tanks s' P1)) (hp (tanks s' P2)) \<and>
      pendingActions s' P1 = None \<and> pendingActions s' P2 = None"
    if "resolveTurn d cfg s0 = Some s'" for s'
    using resolveTurn_verdict [OF that] by simp
  moreover have "\<exists>s'. resolveTurn d cfg s3 = Some s' \<and> isGameOver s' \<and>
            winner s' = Some ''DRAW (STALEMATE)'' \<and> turnCount s' = 1"
    if "success (fst (loadCode d cfg p1Code p2Code s)) \<and> 0 < INITIAL_HP cfg \<and>
      stepCPU d P1 (snd (loadCode d cfg p1Code p2Code s)) = Some (r1, s2) \<and> halts r1 \<and>
      stepCPU d P2 s2 = Some (r2, s3) \<and> halts r2" for r1 s2 r2 s3
    using that halted_turn [of d cfg p1Code p2Code s r1 s2 r2 s3] by blast
  ultimately show ?thesis by blast
qed

lemma halted_state_quiet:
  "resolveTurn test_deps cfg halted_state = Some s' \<Longrightarrow> hp (tanks s' t) = 3"
  using resolveTurn_quiet [of test_deps cfg halted_state s' t]
  by (cases t)
     (simp_all add: halted_state_def test_arena_fields isType_def plain_action_def new_tank_def)

lemma halt_parse:
  "error_message (parse test_deps (tokenize test_deps ''HALT'')) = None"
  by (simp add: test_deps_def error_message_def)

lemma halt_loaded_success:
  "success (fst (loadCode test_deps (inlined_config 1000) ''HALT'' ''HALT'' limit_then_halt_state))"
  by (simp add: loadCode_succeeds halt_parse)

lemma halt_step:
  assumes "cpu (tanks s tid) = Some \<lparr>calls = [], script = [plain_action ''HALT'']\<rparr>"
    and "0 < hp (tanks s tid)"
  shows "\<exists>s'. stepCPU test_deps tid s = Some (Some (plain_action ''HALT''), s') \<and>
              (\<forall>t. t \<noteq> tid \<longrightarrow> cpu (tanks s' t) = cpu (tanks s t))"
  using assms
  by (auto simp: stepCPU_def Let_def test_deps_def fetchIR_def recordResult_def plain_action_def
        upd_tank_def)

lemma halt_loaded_tanks:
  "cpu (tanks halt_loaded_state t) = Some \<lparr>calls = [], script = [plain_action ''HALT'']\<rparr>"
  "hp (tanks halt_loaded_state t) = 3"
  by (cases t;
      simp add: halt_loaded_state_def loadCode_succeeds halt_parse resetTurnState_tanks
        upd_tank_def;
      simp add: test_deps_def inlined_config_def)+

text \<open>
  Two tanks with a pending HALT on the fresh arena: the turn ends in a stalemate. Two
  HALT programs loaded over a finished game: one micro-step each and the turn that
  follows end the new game in a stalemate, in its first turn.
\<close>

theorem resolveTurn_game_over_witness:
  "turn_ok halted_state \<and>
   (\<exists>s'. resolveTurn test_deps (inlined_config 1000) halted_state = Some s' \<and>
         isGameOver s' \<and> winner s' = Some ''DRAW (STALEMATE)'') \<and>
   success (fst (loadCode test_deps (inlined_config 1000) ''HALT'' ''HALT'' limit_then_halt_state)) \<and>
   (\<exists>r1 s2 r2 s3 s'.
      stepCPU test_deps P1 halt_loaded_state = Some (r1, s2) \<and> halts r1 \<and>
      stepCPU test_deps P2 s2 = Some (r2, s3) \<and> halts r2 \<and>
      resolveTurn test_deps (inlined_config 1000) s3 = Some s' \<and> isGameOver s' \<and>
      winner s' = Some ''DRAW (STALEMATE)'' \<and> turnCount s' = 1)"
proof -
  note T = resolveTurn_game_over [where ?s0.0 = halted_state and d = test_deps
      and cfg = "inlined_config 1000" and ?p1Code.0 = "''HALT''" and ?p2Code.0 = "''HALT''"
      and s = limit_then_halt_state]
  from T [THEN conjunct1] turn_ok_halted
  obtain s' where r: "resolveTurn test_deps (inlined_config 1000) halted_state = Some s'"
    by blast
  with T [THEN conjunct2, THEN conjunct1]
  have v: "(isGameOver s', winner s') =
            verdict (inlined_config 1000) halted_state (hp (tanks s' P1)) (hp (tanks s' P2))"
    by blast
  have "verdict (inlined_config 1000) halted_state 3 3 = (True, Some ''DRAW (STALEMATE)'')"
    by (simp add: verdict_def halted_state_def test_arena_fields isType_def plain_action_def)
  with v have "isGameOver s' \<and> winner s' = Some ''DRAW (STALEMATE)''"
    by (simp add: halted_state_quiet [OF r])
  with r have 1: "\<exists>s'. resolveTurn test_deps (inlined_config 1000) halted_state = Some s' \<and>
         isGameOver s' \<and> winner s' = Some ''DRAW (STALEMATE)''"
    by blast
  let ?h = "Some (plain_action ''HALT'')"
  from halt_step [of halt_loaded_state P1] obtain s2 where
    a: "stepCPU test_deps P1 halt_loaded_state = Some (?h, s2)" and
    a': "cpu (tanks s2 P2) = cpu (tanks halt_loaded_state P2)"
    by (auto simp: halt_loaded_tanks)
  have "0 < hp (tanks s2 P2)"
    by (simp add: stepCPU_fields(7) [OF a] halt_loaded_tanks)
  with halt_step [of s2 P2] a' obtain s3 where
    b: "stepCPU test_deps P2 s2 = Some (?h, s3)"
    by (auto simp: halt_loaded_tanks)
  have hh: "halts ?h"
    by (simp add: halts_def plain_action_def)
  have "0 < INITIAL_HP (inlined_config 1000)"
    by (simp add: inlined_config_def)
  with T [THEN conjunct2, THEN conjunct2] halt_loaded_success a b hh
  have "\<exists>s'. resolveTurn test_deps (inlined_config 1000) s3 = Some s' \<and> isGameOver s' \<and>
            winner s' = Some ''DRAW (STALEMATE)'' \<and> turnCount s' = 1"
    unfolding halt_loaded_state_def by blast
  with a b hh have 2: "\<exists>r1 s2 r2 s3 s'.
      stepCPU test_deps P1 halt_loaded_state = Some (r1, s2) \<and> halts r1 \<and>
      stepCPU test_deps P2 s2 = Some (r2, s3) \<and> halts r2 \<and>
      resolveTurn test_deps (inlined_config 1000) s3 = Some s' \<and> isGameOver s' \<and>
      winner s' = Some ''DRAW (STALEMATE)'' \<and> turnCount s' = 1"
    by blast
  from turn_ok_halted 1 halt_loaded_success 2 show ?thesis by blast
qed

text \<open>
  C4 as stated fails on a game that is already over: after a draw by turn limit, with both
  tanks alive and a HALT pending for both, the next \<^verbatim>\<open>resolveTurn\<close> leaves the winner
  \<open>DRAW (TURN LIMIT)\<close>, where the stated order gives a stalemate draw.
\<close>

lemma limit_state_fields:
  "bullets limit_then_halt_state = []"
  "pendingActions limit_then_halt_state = (\<lambda>_. Some (plain_action ''HALT''))"
  "isGameOver limit_then_halt_state = True"
  "winner limit_then_halt_state = Some ''DRAW (TURN LIMIT)''"
  "tanks limit_then_halt_state = tanks test_arena"
  by (simp_all add: limit_then_halt_state_def halted_state_def test_arena_fields)

lemma turn_ok_limit_state: "turn_ok limit_then_halt_state"
  by (simp add: turn_ok_def limit_state_fields test_arena_fields new_tank_def valid_facing_iff
        needs_cpu_def isType_def plain_action_def)

theorem resolveTurn_keeps_earlier_verdict:
  "isType ''HALT'' (pendingActions limit_then_halt_state P1) \<and>
   isType ''HALT'' (pendingActions limit_then_halt_state P2) \<and>
   (case resolveTurn test_deps (inlined_config 1000) limit_then_halt_state of
      None \<Rightarrow> False
    | Some s' \<Rightarrow> 0 < hp (tanks s' P1) \<and> 0 < hp (tanks s' P2) \<and> isGameOver s' \<and>
                 winner s' = Some ''DRAW (TURN LIMIT)'' \<and>
                 winner s' \<noteq> Some ''DRAW (STALEMATE)'')"
proof -
  from resolveTurn_total [OF turn_ok_limit_state]
  obtain s' where r: "resolveTurn test_deps (inlined_config 1000) limit_then_halt_state = Some s'"
    by blast
  have q: "hp (tanks s' t) = 3" for t
    using resolveTurn_quiet [OF r, of t]
    by (cases t)
       (simp_all add: limit_state_fields test_arena_fields isType_def plain_action_def new_tank_def)
  have "verdict (inlined_config 1000) limit_then_halt_state 3 3 = (True, Some ''DRAW (TURN LIMIT)'')"
    by (simp add: verdict_def limit_state_fields)
  with resolveTurn_verdict [OF r] have "isGameOver s' \<and> winner s' = Some ''DRAW (TURN LIMIT)''"
    by (simp add: q)
  then show ?thesis
    by (simp add: r q limit_state_fields isType_def plain_action_def)
qed


end
